theory Spec2Isabelle
  imports Complex_Main "HOL-Library.AList"
begin

section \<open>The directed graph handed to the Python classifier\<close>

text \<open>
  The classifier of \<^verbatim>\<open>interactive_graph_editor.py\<close> (and its copy in
  \<^verbatim>\<open>seymour_graph_game.py\<close>) works on a \<^verbatim>\<open>networkx.DiGraph\<close>. Of that
  library class the program uses \<^verbatim>\<open>add_nodes_from\<close>, \<^verbatim>\<open>add_edges_from\<close>,
  \<^verbatim>\<open>nodes()\<close> and \<^verbatim>\<open>successors(v)\<close>. A graph is kept as the list of its nodes in
  insertion order (the order in which \<^verbatim>\<open>G.nodes()\<close> iterates) and the list of its
  edges in insertion order. Adding a node or an edge that is already present changes
  nothing, and adding an edge first adds its two endpoints, as the library does.
\<close>

record DiGraph =
  dg_nodes :: "int list"
  dg_edges :: "(int \<times> int) list"

definition DiGraph_new :: DiGraph where
  "DiGraph_new = \<lparr>dg_nodes = [], dg_edges = []\<rparr>"

definition add_node :: "int \<Rightarrow> DiGraph \<Rightarrow> DiGraph" where
  "add_node n G = (if n \<in> set (dg_nodes G) then G else G\<lparr>dg_nodes := dg_nodes G @ [n]\<rparr>)"

definition add_edge :: "int \<times> int \<Rightarrow> DiGraph \<Rightarrow> DiGraph" where
  "add_edge e G =
     (let G' = add_node (snd e) (add_node (fst e) G)
      in if e \<in> set (dg_edges G') then G' else G'\<lparr>dg_edges := dg_edges G' @ [e]\<rparr>)"

definition add_nodes_from :: "int list \<Rightarrow> DiGraph \<Rightarrow> DiGraph" where
  "add_nodes_from ns G = fold add_node ns G"

definition add_edges_from :: "(int \<times> int) list \<Rightarrow> DiGraph \<Rightarrow> DiGraph" where
  "add_edges_from es G = fold add_edge es G"

definition successors :: "DiGraph \<Rightarrow> int \<Rightarrow> int list" where
  "successors G v = map snd (filter (\<lambda>e. fst e = v) (dg_edges G))"

section \<open>The Python classifier\<close>

text \<open>
  One entry of the dictionary returned by \<^verbatim>\<open>analyze_seymour_vertices\<close>. The
  two neighbour collections are Python sets. \<^verbatim>\<open>ratio\<close> is the quotient of two
  lengths by Python's true division; it is kept here as the exact quotient.
\<close>

record analysis =
  out_degree :: nat
  first_neighbors :: "int set"
  second_neighbors :: "int set"
  second_neighbor_count :: nat
  satisfies_property :: bool
  ratio :: real

text \<open>The body of the loop over \<^verbatim>\<open>G.nodes()\<close>, for the node \<open>v\<close>.\<close>

definition analyze_vertex :: "DiGraph \<Rightarrow> int \<Rightarrow> analysis" where
  "analyze_vertex G v =
     (let first = set (successors G v);
          raw_second = (\<Union>u\<in>first. set (successors G u));
          second = (raw_second - first) - {v}
      in \<lparr>out_degree = card first,
          first_neighbors = first,
          second_neighbors = second,
          second_neighbor_count = card second,
          satisfies_property = (card second \<ge> card first),
          ratio = real (card second) / real (max (card first) 1)\<rparr>)"

text \<open>
  The dictionary \<^verbatim>\<open>analysis\<close> is an association list in insertion order;
  \<^verbatim>\<open>analysis[v] = ...\<close> is \<^const>\<open>AList.update\<close>, which keeps the position of a key
  that is already there.
\<close>

definition analyze_seymour_vertices :: "DiGraph \<Rightarrow> (int \<times> analysis) list" where
  "analyze_seymour_vertices G =
     fold (\<lambda>v analysis. AList.update v (analyze_vertex G v) analysis) (dg_nodes G) []"

definition get_seymour_vertices :: "DiGraph \<Rightarrow> int list" where
  "get_seymour_vertices G =
     map fst (filter (\<lambda>(v, data). satisfies_property data) (analyze_seymour_vertices G))"

text \<open>The graph of the specification's scenarios, built as \<^verbatim>\<open>main\<close> builds it.\<close>

definition example_graph :: DiGraph where
  "example_graph =
     add_edges_from [(0, 1), (1, 2), (2, 0), (1, 3)] (add_nodes_from [0, 1, 2, 3] DiGraph_new)"

section \<open>From the caller's lists to the page: \<^verbatim>\<open>create_interactive_graph_editor\<close>\<close>

text \<open>
  A node and an edge of \<^verbatim>\<open>graphData\<close>, as the Python function writes them into the
  page and as the script of the page keeps them. The JavaScript fields \<^verbatim>\<open>id\<close>,
  \<^verbatim>\<open>x\<close>, \<^verbatim>\<open>y\<close>, \<^verbatim>\<open>from\<close> and \<^verbatim>\<open>to\<close> carry a prefix here. Coordinates
  are JavaScript numbers; they are real numbers here, so rounding is left out. Ids
  are Python integers on the caller's side and JavaScript numbers in the page; they
  are integers here, which is what the script holds for every id of magnitude at
  most \<open>2\<^sup>5\<^sup>3\<close> (see \<open>exact_number\<close> below). Beyond that range the script
  reads an id as a nearby double, and the model says nothing about it.
\<close>

record node =
  node_id :: int
  node_x :: real
  node_y :: real
  is_seymour :: bool

record edge =
  edge_from :: int
  edge_to :: int

text \<open>The argument \<^verbatim>\<open>graph_data\<close> and the value \<^verbatim>\<open>graph_json\<close>.\<close>

record graph_data =
  gd_nodes :: "int list"
  gd_edges :: "(int \<times> int) list"
  gd_move_mode :: bool

record graph_json =
  gj_nodes :: "node list"
  gj_edges :: "edge list"
  gj_move_mode :: bool

definition create_interactive_graph_editor :: "graph_data \<Rightarrow> graph_json" where
  "create_interactive_graph_editor graph_data =
     (let G = add_nodes_from (gd_nodes graph_data)
                (add_edges_from (gd_edges graph_data) DiGraph_new);
          seymour_vertices = get_seymour_vertices G;
          nodes = map (\<lambda>(i, node).
                    \<lparr>node_id = node,
                     node_x = real (50 + (i mod 5) * 150),
                     node_y = real (50 + (i div 5) * 120),
                     is_seymour = (node \<in> set seymour_vertices)\<rparr>)
                  (List.enumerate 0 (gd_nodes graph_data));
          edges = map (\<lambda>edge. \<lparr>edge_from = fst edge, edge_to = snd edge\<rparr>) (gd_edges graph_data)
      in \<lparr>gj_nodes = nodes, gj_edges = edges, gj_move_mode = gd_move_mode graph_data\<rparr>)"

section \<open>The state of the editor script\<close>

text \<open>
  The script keeps references to node objects in \<^verbatim>\<open>graphData.nodes\<close>,
  \<^verbatim>\<open>selectedNode\<close>, \<^verbatim>\<open>startDragNode\<close> and \<^verbatim>\<open>sourceNode\<close>, compares them by
  identity and writes to their fields. Node objects therefore live in a store
  \<open>heap\<close>, addressed by references; \<open>next_ref\<close> is the next unused address. Edge
  objects are referred to only inside one handler, so the list \<open>edges\<close> holds them
  directly and an edge object is identified by its position in the list.

  \<open>win_signals\<close> counts the confirmation prompts scheduled by \<^verbatim>\<open>checkForWin\<close>.
  The status bar, the canvas, the console and the \<^verbatim>\<open>graphUpdate\<close> events are written
  and never read back by the script; they are not part of the state. The variables
  \<^verbatim>\<open>dragMode\<close> and \<^verbatim>\<open>dragStartTime\<close> are never read and are left out.
\<close>

type_synonym ref = nat

record editor =
  heap :: "ref \<Rightarrow> node"
  next_ref :: ref
  nodes :: "ref list"
  edges :: "edge list"
  moveMode :: bool
  selectedNode :: "ref option"
  edgeMode :: bool
  sourceNode :: "ref option"
  lastMouseX :: real
  lastMouseY :: real
  dragStartX :: real
  dragStartY :: real
  isDragging :: bool
  startDragNode :: "ref option"
  win_signals :: nat

definition nodeRadius :: real where
  "nodeRadius = 25"

definition DRAG_THRESHOLD :: real where
  "DRAG_THRESHOLD = 10"

text \<open>The detail of a \<^verbatim>\<open>graphUpdate\<close> event: what \<^verbatim>\<open>sendDataToStreamlit\<close> reports.\<close>

definition node_ids :: "editor \<Rightarrow> int list" where
  "node_ids s = map (\<lambda>n. node_id (heap s n)) (nodes s)"

definition edge_pairs :: "editor \<Rightarrow> (int \<times> int) list" where
  "edge_pairs s = map (\<lambda>e. (edge_from e, edge_to e)) (edges s)"

definition node_positions :: "editor \<Rightarrow> (real \<times> real) list" where
  "node_positions s = map (\<lambda>n. (node_x (heap s n), node_y (heap s n))) (nodes s)"

subsection \<open>Hit testing\<close>

definition getNodeAt :: "editor \<Rightarrow> real \<Rightarrow> real \<Rightarrow> ref option" where
  "getNodeAt s x y =
     List.find (\<lambda>n. sqrt ((x - node_x (heap s n))\<^sup>2 + (y - node_y (heap s n))\<^sup>2) \<le> nodeRadius)
       (nodes s)"

definition distanceToLine :: "real \<Rightarrow> real \<Rightarrow> real \<Rightarrow> real \<Rightarrow> real \<Rightarrow> real \<Rightarrow> real" where
  "distanceToLine x y x1 y1 x2 y2 =
     (let A = x - x1; B = y - y1; C = x2 - x1; D = y2 - y1;
          dot = A * C + B * D;
          lenSq = C * C + D * D
      in if lenSq = 0 then sqrt (A * A + B * B)
         else
           (let param = dot / lenSq;
                xx = (if param < 0 then x1 else if param > 1 then x2 else x1 + param * C);
                yy = (if param < 0 then y1 else if param > 1 then y2 else y1 + param * D);
                dx = x - xx;
                dy = y - yy
            in sqrt (dx * dx + dy * dy)))"

text \<open>\<^verbatim>\<open>graphData.nodes.find(n => n.id === k)\<close>\<close>

definition find_node :: "editor \<Rightarrow> int \<Rightarrow> ref option" where
  "find_node s k = List.find (\<lambda>n. node_id (heap s n) = k) (nodes s)"

text \<open>The test that \<^verbatim>\<open>getEdgeAt\<close> makes on one edge.\<close>

definition edge_near :: "editor \<Rightarrow> real \<Rightarrow> real \<Rightarrow> edge \<Rightarrow> bool" where
  "edge_near s x y e =
     (case find_node s (edge_from e) of
        None \<Rightarrow> False
      | Some fromNode \<Rightarrow>
          (case find_node s (edge_to e) of
             None \<Rightarrow> False
           | Some toNode \<Rightarrow>
               distanceToLine x y (node_x (heap s fromNode)) (node_y (heap s fromNode))
                 (node_x (heap s toNode)) (node_y (heap s toNode)) \<le> 10))"

text \<open>
  \<^verbatim>\<open>Array.prototype.find\<close> returns the first object that passes the test;
  \<open>findIndex\<close> returns its position, which identifies it.
\<close>

fun findIndex :: "('a \<Rightarrow> bool) \<Rightarrow> 'a list \<Rightarrow> nat option" where
  "findIndex P [] = None"
| "findIndex P (x # xs) = (if P x then Some 0 else map_option Suc (findIndex P xs))"

definition getEdgeAt :: "editor \<Rightarrow> real \<Rightarrow> real \<Rightarrow> nat option" where
  "getEdgeAt s x y = findIndex (edge_near s x y) (edges s)"

text \<open>\<^verbatim>\<open>graphData.edges.filter(e => e !== edge)\<close> for the edge object at position \<open>i\<close>.\<close>

definition remove_edge :: "nat \<Rightarrow> edge list \<Rightarrow> edge list" where
  "remove_edge i es = take i es @ drop (Suc i) es"

subsection \<open>The classifier of the page: \<^verbatim>\<open>updateSeymourStatus\<close>\<close>

definition firstNeighbors :: "edge list \<Rightarrow> int \<Rightarrow> int list" where
  "firstNeighbors es v = map edge_to (filter (\<lambda>e. edge_from e = v) es)"

definition secondNeighbors :: "edge list \<Rightarrow> int \<Rightarrow> int list" where
  "secondNeighbors es v =
     fold (\<lambda>neighbor acc.
             fold (\<lambda>edge acc.
                     if edge_to edge \<noteq> v \<and> edge_to edge \<notin> set (firstNeighbors es v)
                     then (if edge_to edge \<notin> set acc then acc @ [edge_to edge] else acc)
                     else acc)
               (filter (\<lambda>e. edge_from e = neighbor) es) acc)
       (firstNeighbors es v) []"

definition updateSeymourStatus :: "editor \<Rightarrow> editor" where
  "updateSeymourStatus s =
     s\<lparr>heap :=
         fold (\<lambda>n h. h(n := (h n)\<lparr>is_seymour :=
                        (length (secondNeighbors (edges s) (node_id (h n)))
                           \<ge> length (firstNeighbors (edges s) (node_id (h n))))\<rparr>))
           (nodes s) (heap s)\<rparr>"

subsection \<open>\<^verbatim>\<open>renumberNodes\<close> and \<^verbatim>\<open>checkForWin\<close>\<close>

text \<open>
  \<^verbatim>\<open>idMapping\<close> is a JavaScript object used as a dictionary. Reading a key that it
  does not have gives \<^verbatim>\<open>undefined\<close>, which the script would store as an id. Ids are
  integers here, so the model has no value for that: \<open>renumberNodes\<close> returns
  \<open>None\<close> there and the run is followed no further.
\<close>

fun rewrite_nodes :: "(int \<rightharpoonup> int) \<Rightarrow> ref list \<Rightarrow> (ref \<Rightarrow> node) \<Rightarrow> (ref \<Rightarrow> node) option" where
  "rewrite_nodes idMapping [] h = Some h"
| "rewrite_nodes idMapping (n # ns) h =
     (case idMapping (node_id (h n)) of
        None \<Rightarrow> None
      | Some k \<Rightarrow> rewrite_nodes idMapping ns (h(n := (h n)\<lparr>node_id := k\<rparr>)))"

fun rewrite_edges :: "(int \<rightharpoonup> int) \<Rightarrow> edge list \<Rightarrow> edge list option" where
  "rewrite_edges idMapping [] = Some []"
| "rewrite_edges idMapping (e # es) =
     (case idMapping (edge_from e) of
        None \<Rightarrow> None
      | Some a \<Rightarrow>
          (case idMapping (edge_to e) of
             None \<Rightarrow> None
           | Some b \<Rightarrow>
               map_option ((#) \<lparr>edge_from = a, edge_to = b\<rparr>) (rewrite_edges idMapping es)))"

definition renumberNodes :: "editor \<Rightarrow> editor option" where
  "renumberNodes s =
     (let sortedNodes = sort_key (\<lambda>n. node_id (heap s n)) (nodes s);
          idMapping = fold (\<lambda>(index, n) m. m(node_id (heap s n) \<mapsto> int index))
                        (List.enumerate 0 sortedNodes) Map.empty
      in case rewrite_nodes idMapping (nodes s) (heap s) of
           None \<Rightarrow> None
         | Some h \<Rightarrow>
             (case rewrite_edges idMapping (edges s) of
                None \<Rightarrow> None
              | Some es \<Rightarrow> Some (s\<lparr>heap := h, edges := es\<rparr>)))"

definition checkForWin :: "editor \<Rightarrow> editor" where
  "checkForWin s =
     (let seymourCount = length (filter (\<lambda>n. is_seymour (heap s n)) (nodes s))
      in if seymourCount = 0 \<and> length (nodes s) > 0
         then s\<lparr>win_signals := win_signals s + 1\<rparr>
         else s)"

subsection \<open>Start of the script\<close>

text \<open>
  The node objects of the page's \<^verbatim>\<open>graphData\<close> literal are placed at the
  addresses \<open>next_ref, next_ref + 1, ...\<close> in the order of the list.
\<close>

definition place_nodes :: "node list \<Rightarrow> ref \<Rightarrow> (ref \<Rightarrow> node) \<Rightarrow> (ref \<Rightarrow> node)" where
  "place_nodes ns base h =
     (\<lambda>r. if base \<le> r \<and> r < base + length ns then ns ! (r - base) else h r)"

definition editor_start :: "graph_json \<Rightarrow> editor" where
  "editor_start graphData =
     updateSeymourStatus
       \<lparr>heap = place_nodes (gj_nodes graphData) 0
                 (\<lambda>r. \<lparr>node_id = 0, node_x = 0, node_y = 0, is_seymour = False\<rparr>),
        next_ref = length (gj_nodes graphData),
        nodes = [0..<length (gj_nodes graphData)],
        edges = gj_edges graphData,
        moveMode = gj_move_mode graphData,
        selectedNode = None,
        edgeMode = False,
        sourceNode = None,
        lastMouseX = 0,
        lastMouseY = 0,
        dragStartX = 0,
        dragStartY = 0,
        isDragging = False,
        startDragNode = None,
        win_signals = 0\<rparr>"

subsection \<open>The listeners\<close>

text \<open>
  Each listener takes the pointer position that \<^verbatim>\<open>getMousePos\<close> computes from the
  event. \<^verbatim>\<open>render\<close> reads the state and draws; it changes nothing that is
  modelled, so its calls do not appear.
\<close>

definition mousedown :: "editor \<Rightarrow> real \<Rightarrow> real \<Rightarrow> nat \<Rightarrow> editor" where
  "mousedown s0 x y button =
     (let s = s0\<lparr>lastMouseX := x, lastMouseY := y\<rparr>;
          node = getNodeAt s x y
      in if button = 0 then
           (case node of
              Some n \<Rightarrow>
                s\<lparr>selectedNode := Some n, startDragNode := Some n, isDragging := False,
                  dragStartX := x, dragStartY := y\<rparr>
            | None \<Rightarrow>
                s\<lparr>selectedNode := None, startDragNode := None, isDragging := False\<rparr>)
         else if button = 2 then
           (let edge = getEdgeAt s x y
            in case node of
                 Some n \<Rightarrow>
                   updateSeymourStatus
                     (s\<lparr>edges := filter (\<lambda>e. edge_from e \<noteq> node_id (heap s n)
                                           \<and> edge_to e \<noteq> node_id (heap s n)) (edges s),
                        nodes := filter (\<lambda>m. m \<noteq> n) (nodes s)\<rparr>)
               | None \<Rightarrow>
                   (case edge of
                      Some i \<Rightarrow> updateSeymourStatus (s\<lparr>edges := remove_edge i (edges s)\<rparr>)
                    | None \<Rightarrow> s))
         else s)"

definition mousemove :: "editor \<Rightarrow> real \<Rightarrow> real \<Rightarrow> editor" where
  "mousemove s0 currentMouseX currentMouseY =
     (let s1 = s0\<lparr>lastMouseX := currentMouseX, lastMouseY := currentMouseY\<rparr>;
          s2 = (if startDragNode s1 \<noteq> None \<and> \<not> isDragging s1 then
                  (let distanceMoved = sqrt ((currentMouseX - dragStartX s1)\<^sup>2
                                             + (currentMouseY - dragStartY s1)\<^sup>2)
                   in if distanceMoved > DRAG_THRESHOLD then
                        (if moveMode s1
                         then s1\<lparr>isDragging := True, edgeMode := False\<rparr>
                         else s1\<lparr>isDragging := True, edgeMode := True,
                                 sourceNode := startDragNode s1\<rparr>)
                      else s1)
                else s1)
      in case startDragNode s2 of
           None \<Rightarrow> s2
         | Some n \<Rightarrow>
             if isDragging s2 \<and> moveMode s2
             then s2\<lparr>heap := (heap s2)(n := (heap s2 n)\<lparr>node_x := currentMouseX,
                                                         node_y := currentMouseY\<rparr>)\<rparr>
             else s2)"

text \<open>
  The connect-mode branch of the \<^verbatim>\<open>mouseup\<close> listener, for the dragged node
  \<open>start\<close> and the node \<open>target\<close> under the release point.
\<close>

definition connect_release :: "editor \<Rightarrow> ref \<Rightarrow> ref \<Rightarrow> editor" where
  "connect_release s start target =
     (let a = node_id (heap s start);
          b = node_id (heap s target);
          existingEdge = findIndex (\<lambda>edge. edge_from edge = a \<and> edge_to edge = b) (edges s);
          reverseEdge = findIndex (\<lambda>edge. edge_from edge = b \<and> edge_to edge = a) (edges s)
      in if existingEdge = None then
           (case reverseEdge of
              Some i \<Rightarrow>
                checkForWin (updateSeymourStatus
                  (s\<lparr>edges := (edges s)[i := (edges s ! i)\<lparr>edge_from := a, edge_to := b\<rparr>]\<rparr>))
            | None \<Rightarrow>
                checkForWin (updateSeymourStatus
                  (s\<lparr>edges := edges s @ [\<lparr>edge_from = a, edge_to = b\<rparr>]\<rparr>)))
         else s)"

definition mouseup :: "editor \<Rightarrow> real \<Rightarrow> real \<Rightarrow> editor" where
  "mouseup s x y =
     (let targetNode = getNodeAt s x y;
          s1 = (if isDragging s \<and> startDragNode s \<noteq> None \<and> moveMode s then s
                else if isDragging s \<and> startDragNode s \<noteq> None \<and> \<not> moveMode s
                        \<and> targetNode \<noteq> None \<and> targetNode \<noteq> startDragNode s
                then connect_release s (the (startDragNode s)) (the targetNode)
                else s)
      in s1\<lparr>isDragging := False, startDragNode := None, edgeMode := False,
            sourceNode := None, selectedNode := None\<rparr>)"

definition dblclick :: "editor \<Rightarrow> real \<Rightarrow> real \<Rightarrow> editor" where
  "dblclick s x y =
     (case getNodeAt s x y of
        Some n \<Rightarrow> s
      | None \<Rightarrow>
          (let newId = fold max (node_ids s) (- 1) + 1;
               r = next_ref s
           in updateSeymourStatus
                (s\<lparr>heap := (heap s)(r := \<lparr>node_id = newId, node_x = x, node_y = y,
                                          is_seymour = False\<rparr>),
                   next_ref := Suc r,
                   nodes := nodes s @ [r]\<rparr>)))"

definition contextmenu :: "editor \<Rightarrow> real \<Rightarrow> real \<Rightarrow> editor option" where
  "contextmenu s x y =
     (let node = getNodeAt s x y;
          edge = getEdgeAt s x y
      in case node of
           Some n \<Rightarrow>
             (case renumberNodes
                     (s\<lparr>edges := filter (\<lambda>e. edge_from e \<noteq> node_id (heap s n)
                                           \<and> edge_to e \<noteq> node_id (heap s n)) (edges s),
                        nodes := filter (\<lambda>m. m \<noteq> n) (nodes s)\<rparr>) of
                None \<Rightarrow> None
              | Some s' \<Rightarrow> Some (checkForWin (updateSeymourStatus s')))
         | None \<Rightarrow>
             (case edge of
                Some i \<Rightarrow>
                  Some (checkForWin (updateSeymourStatus (s\<lparr>edges := remove_edge i (edges s)\<rparr>)))
              | None \<Rightarrow> Some s))"

definition toggleMoveMode :: "editor \<Rightarrow> editor" where
  "toggleMoveMode s = s\<lparr>moveMode := \<not> moveMode s\<rparr>"

text \<open>
  The \<^verbatim>\<open>graphDataUpdate\<close> listener replaces \<^verbatim>\<open>graphData\<close> by the detail of the
  event, whose node objects are new; \<open>move_mode\<close> is \<open>None\<close> when the detail has no
  such field.
\<close>

definition graphDataUpdate :: "editor \<Rightarrow> node list \<Rightarrow> edge list \<Rightarrow> bool option \<Rightarrow> editor" where
  "graphDataUpdate s detail_nodes detail_edges move_mode =
     updateSeymourStatus
       (s\<lparr>heap := place_nodes detail_nodes (next_ref s) (heap s),
          nodes := [next_ref s..<next_ref s + length detail_nodes],
          next_ref := next_ref s + length detail_nodes,
          edges := detail_edges,
          moveMode := (case move_mode of None \<Rightarrow> moveMode s | Some m \<Rightarrow> m)\<rparr>)"

subsection \<open>Events and runs\<close>

datatype event =
    MouseDown real real nat
  | MouseMove real real
  | MouseUp real real
  | DblClick real real
  | ContextMenu real real
  | ToggleMoveMode
  | GraphDataUpdate "node list" "edge list" "bool option"

fun handle :: "editor \<Rightarrow> event \<Rightarrow> editor option" where
  "handle s (MouseDown x y button) = Some (mousedown s x y button)"
| "handle s (MouseMove x y) = Some (mousemove s x y)"
| "handle s (MouseUp x y) = Some (mouseup s x y)"
| "handle s (DblClick x y) = Some (dblclick s x y)"
| "handle s (ContextMenu x y) = contextmenu s x y"
| "handle s ToggleMoveMode = Some (toggleMoveMode s)"
| "handle s (GraphDataUpdate ns es m) = Some (graphDataUpdate s ns es m)"

fun run :: "editor \<Rightarrow> event list \<Rightarrow> editor option" where
  "run s [] = Some s"
| "run s (e # es) = (case handle s e of None \<Rightarrow> None | Some s' \<Rightarrow> run s' es)"

text \<open>
  Pressing and releasing the secondary button over the point \<open>(x, y)\<close>: the browser
  delivers \<^verbatim>\<open>mousedown\<close> with button 2, \<^verbatim>\<open>mouseup\<close> and then \<^verbatim>\<open>contextmenu\<close>, and
  the script listens to all three.
\<close>

definition right_click :: "real \<Rightarrow> real \<Rightarrow> event list" where
  "right_click x y = [MouseDown x y 2, MouseUp x y, ContextMenu x y]"

text \<open>The editor as \<^verbatim>\<open>main\<close> first shows it: the example graph in connect mode.\<close>

definition example_data :: graph_data where
  "example_data =
     \<lparr>gd_nodes = [0, 1, 2, 3], gd_edges = [(0, 1), (1, 2), (2, 0), (1, 3)],
      gd_move_mode = False\<rparr>"

definition example_editor :: editor where
  "example_editor = editor_start (create_interactive_graph_editor example_data)"

text \<open>
  A graph built as \<^verbatim>\<open>create_interactive_graph_editor\<close> builds it (edges first,
  then nodes) from the node list 0, 1, 2 and the edges (2,1), (1,0).
\<close>

definition reversed_chain :: DiGraph where
  "reversed_chain = add_nodes_from [0, 1, 2] (add_edges_from [(2, 1), (1, 0)] DiGraph_new)"

section \<open>Notions used in the statements about the editor\<close>

text \<open>The number of flagged nodes, as \<^verbatim>\<open>checkForWin\<close> counts it.\<close>

definition seymourCount :: "editor \<Rightarrow> nat" where
  "seymourCount s = length (filter (\<lambda>n. is_seymour (heap s n)) (nodes s))"

text \<open>
  The events of a drag gesture with the primary button: press, moves and release.
\<close>

fun gesture_event :: "event \<Rightarrow> bool" where
  "gesture_event (MouseDown x y button) = (button = 0)"
| "gesture_event (MouseMove x y) = True"
| "gesture_event (MouseUp x y) = True"
| "gesture_event e = False"


text \<open>
  No two edges with the same ordered pair of endpoints, and no two distinct vertices
  joined in both directions.
\<close>

definition no_duplicate_edges :: "editor \<Rightarrow> bool" where
  "no_duplicate_edges s = distinct (edge_pairs s)"

definition no_two_cycles :: "editor \<Rightarrow> bool" where
  "no_two_cycles s =
     (\<forall>(a, b)\<in>set (edge_pairs s). a \<noteq> b \<longrightarrow> (b, a) \<notin> set (edge_pairs s))"

text \<open>
  The page script holds the ids of the \<^verbatim>\<open>graphData\<close> literal as JavaScript numbers,
  that is as IEEE doubles. Every integer of magnitude at most \<open>2\<^sup>5\<^sup>3\<close> is such a number
  and is read as itself; a larger integer is read as a nearby double, so that
  \<open>2\<^sup>5\<^sup>3 + 1\<close> and \<open>2\<^sup>5\<^sup>3\<close> are read as the same id. The ids of the model are
  integers: statements about what loading does to the caller's ids are made for ids
  in the range that the script reads exactly.
\<close>

definition exact_number :: "int \<Rightarrow> bool" where
  "exact_number n = (\<bar>n\<bar> \<le> 2 ^ 53)"

definition exact_ids :: "graph_data \<Rightarrow> bool" where
  "exact_ids gd =
     (list_all exact_number (gd_nodes gd)
      \<and> list_all (\<lambda>edge. exact_number (fst edge) \<and> exact_number (snd edge)) (gd_edges gd))"

text \<open>
  The state without the two variables that the \<^verbatim>\<open>mousemove\<close> listener writes when
  a drag starts, \<^verbatim>\<open>edgeMode\<close> and \<^verbatim>\<open>sourceNode\<close>.
\<close>

definition without_latch :: "editor \<Rightarrow> editor" where
  "without_latch s = s\<lparr>edgeMode := False, sourceNode := None\<rparr>"

text \<open>
  The second scenario of the specification: the example with the edge (0,2) in place
  of (2,0), and a connect-mode drag that started on vertex 2.
\<close>

definition reversal_data :: graph_data where
  "reversal_data =
     \<lparr>gd_nodes = [0, 1, 2, 3], gd_edges = [(0, 1), (1, 2), (0, 2), (1, 3)],
      gd_move_mode = False\<rparr>"

definition reversal_drag :: editor where
  "reversal_drag =
     mousemove (mousedown (editor_start (create_interactive_graph_editor reversal_data))
                  350 50 0) 200 50"



section \<open>Facts about the Python classifier\<close>

lemma set_successors: "set (successors G v) = {w. (v, w) \<in> set (dg_edges G)}"
  by (auto simp: successors_def image_iff)

lemma map_of_fold_update:
  "map_of (fold (\<lambda>v al. AList.update v (f v) al) xs acc) v =
     (if v \<in> set xs then Some (f v) else map_of acc v)"
  by (induction xs arbitrary: acc) (auto simp: AList.update_conv')

lemma map_of_analyze:
  "map_of (analyze_seymour_vertices G) v =
     (if v \<in> set (dg_nodes G) then Some (analyze_vertex G v) else None)"
  by (simp add: analyze_seymour_vertices_def map_of_fold_update)

lemma update_fresh_key: "k \<notin> fst ` set al \<Longrightarrow> AList.update k v al = al @ [(k, v)]"
  by (induction al) auto

lemma fold_update_fresh:
  "distinct xs \<Longrightarrow> set xs \<inter> fst ` set acc = {} \<Longrightarrow>
   fold (\<lambda>v al. AList.update v (f v) al) xs acc = acc @ map (\<lambda>v. (v, f v)) xs"
proof (induction xs arbitrary: acc)
  case Nil
  then show ?case by simp
next
  case (Cons x xs)
  have upd: "AList.update x (f x) acc = acc @ [(x, f x)]"
    using Cons.prems by (intro update_fresh_key) auto
  have "set xs \<inter> fst ` set (acc @ [(x, f x)]) = {}"
    using Cons.prems by auto
  with Cons.IH [of "acc @ [(x, f x)]"] Cons.prems upd show ?case by simp
qed

lemma analyze_items:
  "distinct (dg_nodes G) \<Longrightarrow>
   analyze_seymour_vertices G = map (\<lambda>v. (v, analyze_vertex G v)) (dg_nodes G)"
  by (simp add: analyze_seymour_vertices_def fold_update_fresh)

lemma get_seymour_vertices_filter:
  "distinct (dg_nodes G) \<Longrightarrow>
   get_seymour_vertices G = filter (\<lambda>v. satisfies_property (analyze_vertex G v)) (dg_nodes G)"
  by (simp add: get_seymour_vertices_def analyze_items filter_map comp_def)

lemma example_graph_eq:
  "example_graph = \<lparr>dg_nodes = [0, 1, 2, 3], dg_edges = [(0, 1), (1, 2), (2, 0), (1, 3)]\<rparr>"
  by (simp add: example_graph_def add_edges_from_def add_nodes_from_def add_node_def
      add_edge_def DiGraph_new_def)

lemma example_vertex_1:
  "analyze_vertex example_graph 1 =
     \<lparr>out_degree = 2, first_neighbors = {2, 3}, second_neighbors = {0},
      second_neighbor_count = 1, satisfies_property = False, ratio = 1 / 2\<rparr>"
  by (simp add: example_graph_eq analyze_vertex_def successors_def Let_def insert_commute)

lemma example_vertex_0:
  "analyze_vertex example_graph 0 =
     \<lparr>out_degree = 1, first_neighbors = {1}, second_neighbors = {2, 3},
      second_neighbor_count = 2, satisfies_property = True, ratio = 2\<rparr>"
  by (simp add: example_graph_eq analyze_vertex_def successors_def Let_def insert_commute)

section \<open>The contract of the classifier\<close>

text \<open>
  Claim C1. For every directed graph and every vertex \<open>v\<close> of it, the dictionary
  returned by \<^verbatim>\<open>analyze_seymour_vertices\<close> has an entry for \<open>v\<close> in which
  \<open>first_neighbors\<close> is the set of out-neighbours of \<open>v\<close>, \<open>second_neighbors\<close> is the
  set of vertices that an edge leaving a first neighbour reaches, without the first
  neighbours and without \<open>v\<close> (so it is disjoint from the first neighbours and does not
  contain \<open>v\<close>), \<open>satisfies_property\<close> holds exactly when there are at least as many
  second neighbours as first neighbours, and \<open>ratio\<close> is the number of second
  neighbours divided by the larger of the number of first neighbours and one. On the
  graph with vertices 0, 1, 2, 3 and edges (0,1), (1,2), (2,0), (1,3), vertex 1 has
  the second neighbours \<open>{0}\<close> and is not flagged, and vertex 0 has the second
  neighbours \<open>{2, 3}\<close> and is flagged.
\<close>

theorem analyze_seymour_vertices_contract:
  assumes "v \<in> set (dg_nodes G)"
  shows "(\<exists>a. map_of (analyze_seymour_vertices G) v = Some a
           \<and> first_neighbors a = {w. (v, w) \<in> set (dg_edges G)}
           \<and> second_neighbors a =
               {w. \<exists>u\<in>first_neighbors a. (u, w) \<in> set (dg_edges G)} - first_neighbors a - {v}
           \<and> second_neighbors a \<inter> first_neighbors a = {}
           \<and> v \<notin> second_neighbors a
           \<and> out_degree a = card (first_neighbors a)
           \<and> second_neighbor_count a = card (second_neighbors a)
           \<and> satisfies_property a = (card (second_neighbors a) \<ge> card (first_neighbors a))
           \<and> ratio a = real (card (second_neighbors a)) / real (max (card (first_neighbors a)) 1))
       \<and> map_option second_neighbors (map_of (analyze_seymour_vertices example_graph) 1) = Some {0}
       \<and> map_option out_degree (map_of (analyze_seymour_vertices example_graph) 1) = Some 2
       \<and> map_option satisfies_property (map_of (analyze_seymour_vertices example_graph) 1)
           = Some False
       \<and> map_option second_neighbors (map_of (analyze_seymour_vertices example_graph) 0)
           = Some {2, 3}
       \<and> map_option satisfies_property (map_of (analyze_seymour_vertices example_graph) 0)
           = Some True"
proof -
  have look: "map_of (analyze_seymour_vertices G) v = Some (analyze_vertex G v)"
    using assms by (simp add: map_of_analyze)
  have general: "\<exists>a. map_of (analyze_seymour_vertices G) v = Some a
           \<and> first_neighbors a = {w. (v, w) \<in> set (dg_edges G)}
           \<and> second_neighbors a =
               {w. \<exists>u\<in>first_neighbors a. (u, w) \<in> set (dg_edges G)} - first_neighbors a - {v}
           \<and> second_neighbors a \<inter> first_neighbors a = {}
           \<and> v \<notin> second_neighbors a
           \<and> out_degree a = card (first_neighbors a)
           \<and> second_neighbor_count a = card (second_neighbors a)
           \<and> satisfies_property a = (card (second_neighbors a) \<ge> card (first_neighbors a))
           \<and> ratio a = real (card (second_neighbors a)) / real (max (card (first_neighbors a)) 1)"
    unfolding look
    by (rule exI [of _ "analyze_vertex G v"])
       (auto simp: analyze_vertex_def Let_def set_successors)
  have in1: "(1::int) \<in> set (dg_nodes example_graph)" and in0: "(0::int) \<in> set (dg_nodes example_graph)"
    by (simp_all add: example_graph_eq)
  have v1: "map_of (analyze_seymour_vertices example_graph) 1 = Some (analyze_vertex example_graph 1)"
    using in1 by (simp add: map_of_analyze)
  have v0: "map_of (analyze_seymour_vertices example_graph) 0 = Some (analyze_vertex example_graph 0)"
    using in0 by (simp add: map_of_analyze)
  show ?thesis
    using general by (simp add: v1 v0 example_vertex_1 example_vertex_0)
qed

theorem analyze_seymour_vertices_contract_witness:
  "(2::int) \<in> set (dg_nodes example_graph)
   \<and> (\<exists>a. map_of (analyze_seymour_vertices example_graph) 2 = Some a
           \<and> first_neighbors a = {w. (2, w) \<in> set (dg_edges example_graph)}
           \<and> second_neighbors a \<inter> first_neighbors a = {}
           \<and> 2 \<notin> second_neighbors a
           \<and> satisfies_property a = (card (second_neighbors a) \<ge> card (first_neighbors a)))"
proof -
  have h: "(2::int) \<in> set (dg_nodes example_graph)"
    by (simp add: example_graph_eq)
  from analyze_seymour_vertices_contract [OF h] h show ?thesis
    by blast
qed

section \<open>Facts about graph construction\<close>

lemma dg_edges_add_node [simp]: "dg_edges (add_node n G) = dg_edges G"
  by (simp add: add_node_def)

lemma set_dg_nodes_add_node [simp]: "set (dg_nodes (add_node n G)) = insert n (set (dg_nodes G))"
  by (auto simp: add_node_def)

lemma distinct_add_node [simp]: "distinct (dg_nodes (add_node n G)) = distinct (dg_nodes G)"
  by (auto simp: add_node_def)

lemma dg_edges_add_nodes_from [simp]: "dg_edges (add_nodes_from ns G) = dg_edges G"
  unfolding add_nodes_from_def by (induction ns arbitrary: G) simp_all

lemma set_dg_nodes_add_nodes_from:
  "set (dg_nodes (add_nodes_from ns G)) = set (dg_nodes G) \<union> set ns"
  unfolding add_nodes_from_def by (induction ns arbitrary: G) auto

lemma distinct_add_nodes_from [simp]:
  "distinct (dg_nodes (add_nodes_from ns G)) = distinct (dg_nodes G)"
  unfolding add_nodes_from_def by (induction ns arbitrary: G) simp_all

lemma set_dg_edges_add_edge [simp]: "set (dg_edges (add_edge e G)) = insert e (set (dg_edges G))"
  by (auto simp: add_edge_def Let_def)

lemma distinct_add_edge [simp]: "distinct (dg_nodes (add_edge e G)) = distinct (dg_nodes G)"
  by (simp add: add_edge_def Let_def)

lemma set_dg_edges_add_edges_from:
  "set (dg_edges (add_edges_from es G)) = set (dg_edges G) \<union> set es"
  unfolding add_edges_from_def by (induction es arbitrary: G) auto

lemma distinct_add_edges_from [simp]:
  "distinct (dg_nodes (add_edges_from es G)) = distinct (dg_nodes G)"
  unfolding add_edges_from_def by (induction es arbitrary: G) simp_all

section \<open>Facts about the classifier of the page\<close>

lemma set_firstNeighbors:
  "set (firstNeighbors es v) = {w. (v, w) \<in> set (map (\<lambda>e. (edge_from e, edge_to e)) es)}"
  by (auto simp: firstNeighbors_def image_iff)

lemma distinct_firstNeighbors:
  assumes "distinct (map (\<lambda>e. (edge_from e, edge_to e)) es)"
  shows "distinct (firstNeighbors es v)"
proof -
  have "distinct (map (\<lambda>e. (edge_from e, edge_to e)) (filter (\<lambda>e. edge_from e = v) es))"
    using assms by (simp add: distinct_map_filter)
  moreover have "map (\<lambda>e. (edge_from e, edge_to e)) (filter (\<lambda>e. edge_from e = v) es)
      = map (Pair v) (firstNeighbors es v)"
    by (induction es) (simp_all add: firstNeighbors_def)
  ultimately show ?thesis by (simp add: distinct_map)
qed

lemma push_new_set:
  "set (fold (\<lambda>edge acc. if P (edge_to edge)
                          then (if edge_to edge \<notin> set acc then acc @ [edge_to edge] else acc)
                          else acc) es acc)
     = set acc \<union> {w \<in> edge_to ` set es. P w}"
  by (induction es arbitrary: acc) auto

lemma push_new_distinct:
  "distinct acc \<Longrightarrow>
   distinct (fold (\<lambda>edge acc. if P (edge_to edge)
                          then (if edge_to edge \<notin> set acc then acc @ [edge_to edge] else acc)
                          else acc) es acc)"
  by (induction es arbitrary: acc) auto

lemma outer_set:
  "set (fold (\<lambda>neighbor acc.
             fold (\<lambda>edge acc. if P (edge_to edge)
                          then (if edge_to edge \<notin> set acc then acc @ [edge_to edge] else acc)
                          else acc)
               (filter (\<lambda>e. edge_from e = neighbor) es) acc) ns acc)
     = set acc \<union> {w. \<exists>u\<in>set ns. (u, w) \<in> set (map (\<lambda>e. (edge_from e, edge_to e)) es) \<and> P w}"
proof (induction ns arbitrary: acc)
  case Nil
  then show ?case by simp
next
  case (Cons u ns)
  show ?case
    by (simp add: Cons.IH push_new_set) (auto simp: image_iff)
qed

lemma outer_distinct:
  "distinct acc \<Longrightarrow>
   distinct (fold (\<lambda>neighbor acc.
             fold (\<lambda>edge acc. if P (edge_to edge)
                          then (if edge_to edge \<notin> set acc then acc @ [edge_to edge] else acc)
                          else acc)
               (filter (\<lambda>e. edge_from e = neighbor) es) acc) ns acc)"
  by (induction ns arbitrary: acc) (simp_all add: push_new_distinct)

lemma set_secondNeighbors:
  "set (secondNeighbors es v) =
     {w. \<exists>u\<in>set (firstNeighbors es v). (u, w) \<in> set (map (\<lambda>e. (edge_from e, edge_to e)) es)}
       - set (firstNeighbors es v) - {v}"
  unfolding secondNeighbors_def
  by (simp only: outer_set [where P = "\<lambda>w. w \<noteq> v \<and> w \<notin> set (firstNeighbors es v)"]) auto

lemma distinct_secondNeighbors: "distinct (secondNeighbors es v)"
  unfolding secondNeighbors_def
  by (rule outer_distinct [where P = "\<lambda>w. w \<noteq> v \<and> w \<notin> set (firstNeighbors es v)"]) simp

text \<open>What one pass of the loop of \<^verbatim>\<open>updateSeymourStatus\<close> leaves in the store.\<close>

lemma fold_flag_other:
  "node_id (fold (\<lambda>n h. h(n := (h n)\<lparr>is_seymour := f (node_id (h n))\<rparr>)) ns h r) = node_id (h r)
   \<and> node_x (fold (\<lambda>n h. h(n := (h n)\<lparr>is_seymour := f (node_id (h n))\<rparr>)) ns h r) = node_x (h r)
   \<and> node_y (fold (\<lambda>n h. h(n := (h n)\<lparr>is_seymour := f (node_id (h n))\<rparr>)) ns h r) = node_y (h r)"
  by (induction ns arbitrary: h) simp_all

lemma fold_flag_is_seymour:
  "is_seymour (fold (\<lambda>n h. h(n := (h n)\<lparr>is_seymour := f (node_id (h n))\<rparr>)) ns h r)
     = (if r \<in> set ns then f (node_id (h r)) else is_seymour (h r))"
  by (induction ns arbitrary: h) simp_all

lemma updateSeymourStatus_fields [simp]:
  "nodes (updateSeymourStatus s) = nodes s"
  "edges (updateSeymourStatus s) = edges s"
  "moveMode (updateSeymourStatus s) = moveMode s"
  "win_signals (updateSeymourStatus s) = win_signals s"
  "isDragging (updateSeymourStatus s) = isDragging s"
  "startDragNode (updateSeymourStatus s) = startDragNode s"
  "next_ref (updateSeymourStatus s) = next_ref s"
  "node_id (heap (updateSeymourStatus s) r) = node_id (heap s r)"
  "node_x (heap (updateSeymourStatus s) r) = node_x (heap s r)"
  "node_y (heap (updateSeymourStatus s) r) = node_y (heap s r)"
  by (simp_all add: updateSeymourStatus_def fold_flag_other
      [where f = "\<lambda>v. length (firstNeighbors (edges s) v) \<le> length (secondNeighbors (edges s) v)"])

lemma updateSeymourStatus_is_seymour:
  "is_seymour (heap (updateSeymourStatus s) r) =
     (if r \<in> set (nodes s)
      then length (secondNeighbors (edges s) (node_id (heap s r)))
             \<ge> length (firstNeighbors (edges s) (node_id (heap s r)))
      else is_seymour (heap s r))"
  unfolding updateSeymourStatus_def
  by (simp add: fold_flag_is_seymour
      [where f = "\<lambda>v. length (firstNeighbors (edges s) v) \<le> length (secondNeighbors (edges s) v)"])

section \<open>The example editor, evaluated\<close>

lemma enumerate4: "List.enumerate 0 [a, b, c, d] = [(0, a), (1, b), (2, c), (3, d)]"
  by (simp add: enumerate_eq_zip upt_rec)

lemma example_json:
  "create_interactive_graph_editor example_data =
     \<lparr>gj_nodes = [\<lparr>node_id = 0, node_x = 50, node_y = 50, is_seymour = True\<rparr>,
                  \<lparr>node_id = 1, node_x = 200, node_y = 50, is_seymour = False\<rparr>,
                  \<lparr>node_id = 2, node_x = 350, node_y = 50, is_seymour = True\<rparr>,
                  \<lparr>node_id = 3, node_x = 500, node_y = 50, is_seymour = True\<rparr>],
      gj_edges = [\<lparr>edge_from = 0, edge_to = 1\<rparr>, \<lparr>edge_from = 1, edge_to = 2\<rparr>,
                  \<lparr>edge_from = 2, edge_to = 0\<rparr>, \<lparr>edge_from = 1, edge_to = 3\<rparr>],
      gj_move_mode = False\<rparr>"
proof -
  have G: "add_nodes_from [0, 1, 2, 3] (add_edges_from [(0, 1), (1, 2), (2, 0), (1, 3)] DiGraph_new)
             = \<lparr>dg_nodes = [0, 1, 2, 3], dg_edges = [(0, 1), (1, 2), (2, 0), (1, 3)]\<rparr>"
    by (simp add: add_edges_from_def add_nodes_from_def add_node_def add_edge_def DiGraph_new_def)
  have S: "get_seymour_vertices \<lparr>dg_nodes = [0, 1, 2, 3], dg_edges = [(0, 1), (1, 2), (2, 0), (1, 3)]\<rparr>
             = [0, 2, 3]"
    by (simp add: get_seymour_vertices_filter analyze_vertex_def successors_def Let_def)
  show ?thesis
    by (simp add: create_interactive_graph_editor_def example_data_def G S Let_def enumerate4)
qed

lemma example_editor_nodes: "nodes example_editor = [0, 1, 2, 3]"
  by (simp add: example_editor_def editor_start_def example_json upt_rec)

lemma example_editor_edges:
  "edges example_editor = [\<lparr>edge_from = 0, edge_to = 1\<rparr>, \<lparr>edge_from = 1, edge_to = 2\<rparr>,
                  \<lparr>edge_from = 2, edge_to = 0\<rparr>, \<lparr>edge_from = 1, edge_to = 3\<rparr>]"
  by (simp add: example_editor_def editor_start_def example_json)

lemma example_editor_heap:
  "heap example_editor 0 = \<lparr>node_id = 0, node_x = 50, node_y = 50, is_seymour = True\<rparr>"
  "heap example_editor (Suc 0) = \<lparr>node_id = 1, node_x = 200, node_y = 50, is_seymour = False\<rparr>"
  "heap example_editor 2 = \<lparr>node_id = 2, node_x = 350, node_y = 50, is_seymour = True\<rparr>"
  "heap example_editor 3 = \<lparr>node_id = 3, node_x = 500, node_y = 50, is_seymour = True\<rparr>"
  by (simp_all add: example_editor_def editor_start_def example_json upt_rec
      updateSeymourStatus_def place_nodes_def firstNeighbors_def secondNeighbors_def)

lemma example_editor_rest:
  "moveMode example_editor = False" "isDragging example_editor = False"
  "startDragNode example_editor = None" "win_signals example_editor = 0"
  by (simp_all add: example_editor_def editor_start_def example_json)

lemma reversed_chain_eq:
  "reversed_chain = \<lparr>dg_nodes = [2, 1, 0], dg_edges = [(2, 1), (1, 0)]\<rparr>"
  by (simp add: reversed_chain_def add_edges_from_def add_nodes_from_def add_node_def
      add_edge_def DiGraph_new_def)

section \<open>The derived query \<^verbatim>\<open>get_seymour_vertices\<close>\<close>

text \<open>
  Claim C5 says that \<^verbatim>\<open>get_seymour_vertices\<close> lists the flagged vertices in
  ascending order of their ids. The list comprehension runs over the dictionary in
  insertion order, which is the order of \<^verbatim>\<open>G.nodes()\<close>. On the graph
  \<open>reversed_chain\<close> the nodes were inserted as 2, 1, 0 and the result is \<open>[2, 0]\<close>.
\<close>

theorem get_seymour_vertices_not_ascending:
  "get_seymour_vertices reversed_chain = [2, 0]
   \<and> \<not> sorted (get_seymour_vertices reversed_chain)"
proof -
  have "get_seymour_vertices reversed_chain = [2, 0]"
    by (simp add: reversed_chain_eq get_seymour_vertices_filter analyze_vertex_def
        successors_def Let_def)
  then show ?thesis by simp
qed

text \<open>
  Claim C5, amended. For every directed graph, \<^verbatim>\<open>get_seymour_vertices\<close> returns
  exactly the vertices whose analysis record has \<open>satisfies_property\<close> true, each
  once, in the order in which the graph lists its nodes; the result is ascending
  whenever that node order is ascending.
\<close>

theorem get_seymour_vertices_insertion_order:
  assumes "distinct (dg_nodes G)"
  shows "get_seymour_vertices G =
           filter (\<lambda>v. \<exists>a. map_of (analyze_seymour_vertices G) v = Some a \<and> satisfies_property a)
             (dg_nodes G)
         \<and> distinct (get_seymour_vertices G)
         \<and> (sorted (dg_nodes G) \<longrightarrow> sorted (get_seymour_vertices G))"
proof -
  have "filter (\<lambda>v. \<exists>a. map_of (analyze_seymour_vertices G) v = Some a \<and> satisfies_property a)
             (dg_nodes G)
        = filter (\<lambda>v. satisfies_property (analyze_vertex G v)) (dg_nodes G)"
    by (rule filter_cong) (simp_all add: map_of_analyze)
  then have eq: "get_seymour_vertices G =
           filter (\<lambda>v. \<exists>a. map_of (analyze_seymour_vertices G) v = Some a \<and> satisfies_property a)
             (dg_nodes G)"
    using assms by (simp add: get_seymour_vertices_filter)
  show ?thesis
    using assms eq by (simp add: sorted_filter [where f = "\<lambda>x. x", simplified])
qed

theorem get_seymour_vertices_insertion_order_witness:
  "distinct (dg_nodes reversed_chain)
   \<and> get_seymour_vertices reversed_chain =
           filter (\<lambda>v. \<exists>a. map_of (analyze_seymour_vertices reversed_chain) v = Some a
                          \<and> satisfies_property a)
             (dg_nodes reversed_chain)
   \<and> distinct (get_seymour_vertices reversed_chain)"
proof -
  have h: "distinct (dg_nodes reversed_chain)"
    by (simp add: reversed_chain_eq)
  from get_seymour_vertices_insertion_order [OF h] h show ?thesis by blast
qed

section \<open>Vertices without outgoing edges\<close>

text \<open>
  Claim C9. For every directed graph, a vertex with out-degree 0 is flagged: in the
  Python classifier its first and second neighbour sets are empty and
  \<open>satisfies_property\<close> is true, and in the classifier of the page its two neighbour
  lists are empty and \<^verbatim>\<open>updateSeymourStatus\<close> sets \<open>is_seymour\<close>.
\<close>

theorem sink_vertex_is_flagged:
  "(v \<in> set (dg_nodes G) \<and> (\<forall>w. (v, w) \<notin> set (dg_edges G)) \<longrightarrow>
      (\<exists>a. map_of (analyze_seymour_vertices G) v = Some a
          \<and> out_degree a = 0 \<and> first_neighbors a = {} \<and> second_neighbors a = {}
          \<and> satisfies_property a))
   \<and> (n \<in> set (nodes s) \<and> (\<forall>e\<in>set (edges s). edge_from e \<noteq> node_id (heap s n)) \<longrightarrow>
        firstNeighbors (edges s) (node_id (heap s n)) = []
      \<and> secondNeighbors (edges s) (node_id (heap s n)) = []
      \<and> is_seymour (heap (updateSeymourStatus s) n))"
proof -
  have py: "\<exists>a. map_of (analyze_seymour_vertices G) v = Some a
          \<and> out_degree a = 0 \<and> first_neighbors a = {} \<and> second_neighbors a = {}
          \<and> satisfies_property a"
    if "v \<in> set (dg_nodes G)" and "\<forall>w. (v, w) \<notin> set (dg_edges G)"
  proof -
    have "set (successors G v) = {}"
      using that(2) by (simp add: set_successors)
    then show ?thesis
      using that(1) by (simp add: map_of_analyze analyze_vertex_def Let_def)
  qed
  have js: "firstNeighbors (edges s) (node_id (heap s n)) = []
      \<and> secondNeighbors (edges s) (node_id (heap s n)) = []
      \<and> is_seymour (heap (updateSeymourStatus s) n)"
    if "n \<in> set (nodes s)" and "\<forall>e\<in>set (edges s). edge_from e \<noteq> node_id (heap s n)"
  proof -
    have f: "firstNeighbors (edges s) (node_id (heap s n)) = []"
      using that(2) by (simp add: firstNeighbors_def filter_empty_conv)
    then have "secondNeighbors (edges s) (node_id (heap s n)) = []"
      by (simp add: secondNeighbors_def)
    with f that(1) show ?thesis
      by (simp add: updateSeymourStatus_is_seymour)
  qed
  from py js show ?thesis by blast
qed

theorem sink_vertex_is_flagged_witness:
  "(3::int) \<in> set (dg_nodes example_graph)
   \<and> set (successors example_graph 3) = {}
   \<and> (\<exists>a. map_of (analyze_seymour_vertices example_graph) 3 = Some a
          \<and> out_degree a = 0 \<and> first_neighbors a = {} \<and> second_neighbors a = {}
          \<and> satisfies_property a)
   \<and> (3::nat) \<in> set (nodes example_editor)
   \<and> firstNeighbors (edges example_editor) (node_id (heap example_editor 3)) = []
   \<and> secondNeighbors (edges example_editor) (node_id (heap example_editor 3)) = []
   \<and> is_seymour (heap (updateSeymourStatus example_editor) 3)"
proof -
  have h1: "(3::int) \<in> set (dg_nodes example_graph) \<and> (\<forall>w. (3, w) \<notin> set (dg_edges example_graph))"
    by (simp add: example_graph_eq)
  have h2: "(3::nat) \<in> set (nodes example_editor)
        \<and> (\<forall>e\<in>set (edges example_editor). edge_from e \<noteq> node_id (heap example_editor 3))"
    by (simp add: example_editor_nodes example_editor_edges example_editor_heap)
  have h3: "set (successors example_graph 3) = {}"
    using h1 by (simp add: set_successors)
  from sink_vertex_is_flagged [of 3 example_graph 3 example_editor] h1 h2 h3 show ?thesis
    by blast
qed

section \<open>The two classifiers agree\<close>

lemma set_successors_built:
  "set (successors (add_nodes_from ns (add_edges_from es DiGraph_new)) v) = {w. (v, w) \<in> set es}"
  by (simp add: set_successors set_dg_edges_add_edges_from DiGraph_new_def)

text \<open>
  Claim C10. For every state of the page whose edge list has no two edges with the
  same (from, to) pair, \<^verbatim>\<open>updateSeymourStatus\<close> gives each node of
  \<^verbatim>\<open>graphData.nodes\<close> the verdict that \<open>satisfies_property\<close> has in the analysis
  of the Python classifier for the graph built from the same node ids and edges.
\<close>

theorem classifiers_agree:
  assumes "distinct (edge_pairs s)" and "n \<in> set (nodes s)"
  shows "\<exists>a. map_of (analyze_seymour_vertices
                 (add_nodes_from (node_ids s) (add_edges_from (edge_pairs s) DiGraph_new)))
               (node_id (heap s n)) = Some a
           \<and> is_seymour (heap (updateSeymourStatus s) n) = satisfies_property a"
proof -
  let ?G = "add_nodes_from (node_ids s) (add_edges_from (edge_pairs s) DiGraph_new)"
  let ?v = "node_id (heap s n)"
  have "?v \<in> set (node_ids s)"
    using assms(2) by (simp add: node_ids_def)
  then have V: "?v \<in> set (dg_nodes ?G)"
    by (simp add: set_dg_nodes_add_nodes_from)
  have first: "set (successors ?G ?v) = set (firstNeighbors (edges s) ?v)"
    by (simp add: set_successors_built set_firstNeighbors edge_pairs_def)
  have "(\<Union>u\<in>set (firstNeighbors (edges s) ?v). set (successors ?G u))
          = {w. \<exists>u\<in>set (firstNeighbors (edges s) ?v). (u, w) \<in> set (edge_pairs s)}"
    unfolding set_successors_built by auto
  then have second: "(\<Union>u\<in>set (successors ?G ?v). set (successors ?G u))
                        - set (successors ?G ?v) - {?v}
                     = set (secondNeighbors (edges s) ?v)"
    unfolding first by (simp add: set_secondNeighbors edge_pairs_def)
  have c1: "card (set (firstNeighbors (edges s) ?v)) = length (firstNeighbors (edges s) ?v)"
    using assms(1) by (intro distinct_card distinct_firstNeighbors) (simp add: edge_pairs_def)
  have c2: "card (set (secondNeighbors (edges s) ?v)) = length (secondNeighbors (edges s) ?v)"
    by (intro distinct_card distinct_secondNeighbors)
  have "satisfies_property (analyze_vertex ?G ?v)
          = (length (secondNeighbors (edges s) ?v) \<ge> length (firstNeighbors (edges s) ?v))"
    unfolding analyze_vertex_def Let_def second by (simp add: c2 first c1)
  with V assms(2) show ?thesis
    by (simp add: map_of_analyze updateSeymourStatus_is_seymour)
qed

lemma example_editor_edge_pairs: "edge_pairs example_editor = [(0, 1), (1, 2), (2, 0), (1, 3)]"
  by (simp add: edge_pairs_def example_editor_edges)

theorem classifiers_agree_witness:
  "distinct (edge_pairs example_editor) \<and> (1::nat) \<in> set (nodes example_editor)
   \<and> (\<exists>a. map_of (analyze_seymour_vertices
                 (add_nodes_from (node_ids example_editor)
                    (add_edges_from (edge_pairs example_editor) DiGraph_new)))
               (node_id (heap example_editor 1)) = Some a
           \<and> is_seymour (heap (updateSeymourStatus example_editor) 1) = satisfies_property a)"
proof -
  have h1: "distinct (edge_pairs example_editor)"
    by (simp add: example_editor_edge_pairs)
  have h2: "(1::nat) \<in> set (nodes example_editor)"
    by (simp add: example_editor_nodes)
  from classifiers_agree [OF h1 h2] h1 h2 show ?thesis by blast
qed

section \<open>Hit tests without square roots\<close>

lemma sqrt_le_radius: "sqrt d \<le> nodeRadius \<longleftrightarrow> d \<le> 625"
proof -
  have "sqrt d \<le> sqrt 625 \<longleftrightarrow> d \<le> 625" by (rule real_sqrt_le_iff)
  moreover have "sqrt 625 = (25::real)" by (rule real_sqrt_unique) simp_all
  ultimately show ?thesis by (simp add: nodeRadius_def)
qed

lemma sqrt_gt_threshold: "sqrt d > DRAG_THRESHOLD \<longleftrightarrow> d > 100"
proof -
  have "sqrt 100 < sqrt d \<longleftrightarrow> 100 < d" by (rule real_sqrt_less_iff)
  moreover have "sqrt 100 = (10::real)" by (rule real_sqrt_unique) simp_all
  ultimately show ?thesis by (simp add: DRAG_THRESHOLD_def)
qed

lemma sqrt_le_ten: "sqrt d \<le> 10 \<longleftrightarrow> d \<le> 100"
proof -
  have "sqrt d \<le> sqrt 100 \<longleftrightarrow> d \<le> 100" by (rule real_sqrt_le_iff)
  moreover have "sqrt 100 = (10::real)" by (rule real_sqrt_unique) simp_all
  ultimately show ?thesis by simp
qed

lemma getNodeAt_squares:
  "getNodeAt s x y =
     List.find (\<lambda>n. (x - node_x (heap s n))\<^sup>2 + (y - node_y (heap s n))\<^sup>2 \<le> 625) (nodes s)"
  by (simp add: getNodeAt_def sqrt_le_radius)

lemma distanceToLine_le_ten:
  "distanceToLine x y x1 y1 x2 y2 \<le> 10 \<longleftrightarrow>
     (if (x2 - x1) * (x2 - x1) + (y2 - y1) * (y2 - y1) = 0
      then (x - x1) * (x - x1) + (y - y1) * (y - y1) \<le> 100
      else
        (let param = ((x - x1) * (x2 - x1) + (y - y1) * (y2 - y1))
                       / ((x2 - x1) * (x2 - x1) + (y2 - y1) * (y2 - y1));
             xx = (if param < 0 then x1 else if param > 1 then x2 else x1 + param * (x2 - x1));
             yy = (if param < 0 then y1 else if param > 1 then y2 else y1 + param * (y2 - y1))
         in (x - xx) * (x - xx) + (y - yy) * (y - yy) \<le> 100))"
  by (simp add: distanceToLine_def Let_def sqrt_le_ten)

section \<open>A right click on vertex 1 of the example\<close>

lemma example_getNodeAt_200_50: "getNodeAt (example_editor\<lparr>lastMouseX := a, lastMouseY := b\<rparr>) 200 50 = Some 1"
  by (simp add: getNodeAt_squares example_editor_nodes example_editor_heap)

lemma after_mousedown_nodes: "nodes (mousedown example_editor 200 50 2) = [0, 2, 3]"
  by (simp add: mousedown_def Let_def example_getNodeAt_200_50 example_editor_nodes
      example_editor_heap)

lemma after_mousedown_edges:
  "edges (mousedown example_editor 200 50 2) = [\<lparr>edge_from = 2, edge_to = 0\<rparr>]"
  by (simp add: mousedown_def Let_def example_getNodeAt_200_50 example_editor_edges
      example_editor_heap)

lemma after_mousedown_heap:
  "node_id (heap (mousedown example_editor 200 50 2) r) = node_id (heap example_editor r)"
  "node_x (heap (mousedown example_editor 200 50 2) r) = node_x (heap example_editor r)"
  "node_y (heap (mousedown example_editor 200 50 2) r) = node_y (heap example_editor r)"
  by (simp_all add: mousedown_def Let_def example_getNodeAt_200_50)

lemma after_mousedown_drag:
  "isDragging (mousedown example_editor 200 50 2) = False"
  "startDragNode (mousedown example_editor 200 50 2) = None"
  by (simp_all add: mousedown_def Let_def example_getNodeAt_200_50 example_editor_rest)

lemma after_mouseup:
  "mouseup (mousedown example_editor 200 50 2) 200 50 =
     (mousedown example_editor 200 50 2)\<lparr>isDragging := False, startDragNode := None,
        edgeMode := False, sourceNode := None, selectedNode := None\<rparr>"
  by (simp add: mouseup_def Let_def after_mousedown_drag)


lemma after_mouseup_graph:
  "nodes (mouseup (mousedown example_editor 200 50 2) 200 50) = [0, 2, 3]"
  "edges (mouseup (mousedown example_editor 200 50 2) 200 50) = [\<lparr>edge_from = 2, edge_to = 0\<rparr>]"
  "heap (mouseup (mousedown example_editor 200 50 2) 200 50)
     = heap (mousedown example_editor 200 50 2)"
  by (simp_all add: after_mouseup after_mousedown_nodes after_mousedown_edges)

lemma after_mouseup_getNodeAt:
  "getNodeAt (mouseup (mousedown example_editor 200 50 2) 200 50) 200 50 = None"
  by (simp add: getNodeAt_squares after_mouseup_graph after_mousedown_heap example_editor_heap)

lemma after_mouseup_find_node:
  "find_node (mouseup (mousedown example_editor 200 50 2) 200 50) 2 = Some 2"
  "find_node (mouseup (mousedown example_editor 200 50 2) 200 50) 0 = Some 0"
  by (simp_all add: find_node_def after_mouseup_graph after_mousedown_heap example_editor_heap)

lemma after_mouseup_getEdgeAt:
  "getEdgeAt (mouseup (mousedown example_editor 200 50 2) 200 50) 200 50 = Some 0"
  by (simp add: getEdgeAt_def edge_near_def after_mouseup_graph after_mouseup_find_node
      distanceToLine_le_ten after_mousedown_heap example_editor_heap)

lemma checkForWin_graph [simp]:
  "nodes (checkForWin s) = nodes s"
  "edges (checkForWin s) = edges s"
  "heap (checkForWin s) = heap s"
  by (simp_all add: checkForWin_def Let_def)

lemma right_click_result:
  "contextmenu (mouseup (mousedown example_editor 200 50 2) 200 50) 200 50 =
     Some (checkForWin (updateSeymourStatus
       ((mouseup (mousedown example_editor 200 50 2) 200 50)\<lparr>edges := []\<rparr>)))"
  by (simp add: contextmenu_def Let_def after_mouseup_getNodeAt after_mouseup_getEdgeAt
      remove_edge_def after_mouseup_graph)

text \<open>
  Claim C3 says that a right click on a vertex deletes it with its edges and renumbers
  the surviving vertices to \<open>0..n-2\<close>, so that deleting vertex 1 of the example
  leaves the ids 0, 1, 2 and turns edge (2,0) into (1,0). The \<^verbatim>\<open>mousedown\<close>
  listener handles button 2 first: it deletes vertex 1 and its three edges and does
  not renumber, which leaves the ids 0, 2, 3 and the edge (2,0). The
  \<^verbatim>\<open>contextmenu\<close> listener, which does renumber, then finds no vertex under
  the pointer; it finds the edge (2,0), which passes through the point, and deletes it.
\<close>

theorem right_click_leaves_gap:
  "node_ids (mousedown example_editor 200 50 2) = [0, 2, 3]
   \<and> edge_pairs (mousedown example_editor 200 50 2) = [(2, 0)]
   \<and> (\<exists>s'. run example_editor (right_click 200 50) = Some s'
          \<and> node_ids s' = [0, 2, 3] \<and> edge_pairs s' = [])"
proof -
  have ids: "node_ids (mousedown example_editor 200 50 2) = [0, 2, 3]"
    by (simp add: node_ids_def after_mousedown_nodes after_mousedown_heap example_editor_heap)
  have pairs: "edge_pairs (mousedown example_editor 200 50 2) = [(2, 0)]"
    by (simp add: edge_pairs_def after_mousedown_edges)
  let ?s' = "checkForWin (updateSeymourStatus
       ((mouseup (mousedown example_editor 200 50 2) 200 50)\<lparr>edges := []\<rparr>))"
  have run: "run example_editor (right_click 200 50) = Some ?s'"
    by (simp add: right_click_def right_click_result)
  have "node_ids ?s' = [0, 2, 3]"
    by (simp add: node_ids_def after_mouseup_graph after_mousedown_heap example_editor_heap)
  moreover have "edge_pairs ?s' = []"
    by (simp add: edge_pairs_def)
  ultimately show ?thesis
    using ids pairs run by blast
qed

lemma example_getNodeAt_200_50': "getNodeAt example_editor 200 50 = Some 1"
  by (simp add: getNodeAt_squares example_editor_nodes example_editor_heap)

lemma enumerate3: "List.enumerate 0 [a, b, c] = [(0, a), (1, b), (2, c)]"
  by (simp add: enumerate_eq_zip upt_rec)

text \<open>
  The \<^verbatim>\<open>contextmenu\<close> listener on its own, at the same point of the same
  editor, does what the claim describes.
\<close>

lemma contextmenu_alone_renumbers:
  "\<exists>s'. contextmenu example_editor 200 50 = Some s'
        \<and> node_ids s' = [0, 1, 2] \<and> edge_pairs s' = [(1, 0)]"
proof -
  let ?s1 = "example_editor\<lparr>edges := [\<lparr>edge_from = 2, edge_to = 0\<rparr>], nodes := [0, 2, 3]\<rparr>"
  let ?m = "[0 \<mapsto> 0, 2 \<mapsto> 1, 3 \<mapsto> (2::int)]"
  have sorted: "sort_key (\<lambda>n. node_id (heap ?s1 n)) (nodes ?s1) = [0, 2, 3]"
    by (simp add: example_editor_heap)
  have idm: "fold (\<lambda>(index, n) m. m(node_id (heap ?s1 n) \<mapsto> int index))
                 (List.enumerate 0 [0, 2, 3]) Map.empty = ?m"
    by (simp add: enumerate3 example_editor_heap)
  obtain h where h: "rewrite_nodes ?m [0, 2, 3] (heap example_editor) = Some h"
     and hid: "node_id (h 0) = 0" "node_id (h 2) = 1" "node_id (h 3) = 2"
    by (simp add: example_editor_heap)
  have es: "rewrite_edges ?m [\<lparr>edge_from = 2, edge_to = 0\<rparr>] = Some [\<lparr>edge_from = 1, edge_to = 0\<rparr>]"
    by simp
  have rn: "renumberNodes ?s1 = Some (?s1\<lparr>heap := h, edges := [\<lparr>edge_from = 1, edge_to = 0\<rparr>]\<rparr>)"
    unfolding renumberNodes_def Let_def sorted idm using h es by simp
  have cm: "contextmenu example_editor 200 50 =
          Some (checkForWin (updateSeymourStatus
             (?s1\<lparr>heap := h, edges := [\<lparr>edge_from = 1, edge_to = 0\<rparr>]\<rparr>)))"
    using rn by (simp add: contextmenu_def Let_def example_getNodeAt_200_50' example_editor_heap
        example_editor_edges example_editor_nodes)
  show ?thesis
    unfolding cm by (simp add: node_ids_def edge_pairs_def hid)
qed

section \<open>Loading the initial graph\<close>

lemma map_place_nodes:
  "map (\<lambda>r. f (place_nodes ns 0 h r)) [0..<length ns] = map f ns"
  by (rule nth_equalityI) (simp_all add: place_nodes_def)

lemma node_ids_editor_start: "node_ids (editor_start gj) = map node_id (gj_nodes gj)"
  by (simp add: node_ids_def editor_start_def map_place_nodes)

lemma edge_pairs_editor_start:
  "edge_pairs (editor_start gj) = map (\<lambda>e. (edge_from e, edge_to e)) (gj_edges gj)"
  by (simp add: edge_pairs_def editor_start_def)

lemma gj_nodes_ids: "map node_id (gj_nodes (create_interactive_graph_editor gd)) = gd_nodes gd"
  by (simp add: create_interactive_graph_editor_def Let_def comp_def case_prod_beta
      enumerate_eq_zip)

lemma gj_edges_pairs:
  "map (\<lambda>e. (edge_from e, edge_to e)) (gj_edges (create_interactive_graph_editor gd)) = gd_edges gd"
  by (simp add: create_interactive_graph_editor_def Let_def comp_def)

text \<open>
  Claim C6, amended. For every initial vertex and edge list whose ids are integers
  of magnitude at most \<open>2\<^sup>5\<^sup>3\<close>, the range in which the script reads every id
  exactly, the editor starts with exactly the caller's vertex ids, in the caller's
  order, and exactly the caller's edge endpoints: loading renumbers nothing.
\<close>

theorem load_keeps_caller_ids:
  assumes "exact_ids gd"
  shows "node_ids (editor_start (create_interactive_graph_editor gd)) = gd_nodes gd
       \<and> edge_pairs (editor_start (create_interactive_graph_editor gd)) = gd_edges gd"
  by (simp add: node_ids_editor_start edge_pairs_editor_start gj_nodes_ids gj_edges_pairs)

theorem load_keeps_caller_ids_witness:
  "exact_ids example_data
   \<and> node_ids (editor_start (create_interactive_graph_editor example_data)) = [0, 1, 2, 3]
   \<and> edge_pairs (editor_start (create_interactive_graph_editor example_data))
       = [(0, 1), (1, 2), (2, 0), (1, 3)]"
proof -
  have e: "exact_ids example_data"
    by (simp add: exact_ids_def exact_number_def example_data_def)
  from load_keeps_caller_ids [OF e] e show ?thesis
    by (simp add: example_data_def)
qed

text \<open>
  Claim C6 says that loading renumbers the vertices to \<open>0..n-1\<close> and rewrites the
  edges. Neither \<^verbatim>\<open>create_interactive_graph_editor\<close> nor the start of the
  script calls \<^verbatim>\<open>renumberNodes\<close>: the ids 5, 7 with the edge (5,7) are
  loaded as they are.
\<close>

theorem load_does_not_renumber:
  "exact_ids \<lparr>gd_nodes = [5, 7], gd_edges = [(5, 7)], gd_move_mode = False\<rparr>
   \<and> node_ids (editor_start (create_interactive_graph_editor
       \<lparr>gd_nodes = [5, 7], gd_edges = [(5, 7)], gd_move_mode = False\<rparr>)) = [5, 7]
   \<and> edge_pairs (editor_start (create_interactive_graph_editor
       \<lparr>gd_nodes = [5, 7], gd_edges = [(5, 7)], gd_move_mode = False\<rparr>)) = [(5, 7)]
   \<and> node_ids (editor_start (create_interactive_graph_editor
       \<lparr>gd_nodes = [5, 7], gd_edges = [(5, 7)], gd_move_mode = False\<rparr>)) \<noteq> [0, 1]
   \<and> edge_pairs (editor_start (create_interactive_graph_editor
       \<lparr>gd_nodes = [5, 7], gd_edges = [(5, 7)], gd_move_mode = False\<rparr>)) \<noteq> [(0, 1)]"
  by (simp add: node_ids_editor_start edge_pairs_editor_start gj_nodes_ids gj_edges_pairs
      exact_ids_def exact_number_def)

section \<open>The loaded editor, field by field\<close>

lemma loaded_nodes:
  "nodes (editor_start (create_interactive_graph_editor gd)) = [0..<length (gd_nodes gd)]"
  by (simp add: editor_start_def create_interactive_graph_editor_def Let_def)

lemma loaded_edges:
  "edges (editor_start (create_interactive_graph_editor gd))
     = map (\<lambda>edge. \<lparr>edge_from = fst edge, edge_to = snd edge\<rparr>) (gd_edges gd)"
  by (simp add: editor_start_def create_interactive_graph_editor_def Let_def)

lemma loaded_node:
  assumes "r < length (gd_nodes gd)"
  shows "node_id (heap (editor_start (create_interactive_graph_editor gd)) r) = gd_nodes gd ! r"
    and "node_x (heap (editor_start (create_interactive_graph_editor gd)) r)
           = real (50 + (r mod 5) * 150)"
    and "node_y (heap (editor_start (create_interactive_graph_editor gd)) r)
           = real (50 + (r div 5) * 120)"
  using assms
  by (simp_all add: editor_start_def create_interactive_graph_editor_def Let_def
      place_nodes_def enumerate_eq_zip)

lemma loaded_rest:
  "moveMode (editor_start (create_interactive_graph_editor gd)) = gd_move_mode gd"
  "isDragging (editor_start (create_interactive_graph_editor gd)) = False"
  "startDragNode (editor_start (create_interactive_graph_editor gd)) = None"
  "win_signals (editor_start (create_interactive_graph_editor gd)) = 0"
  by (simp_all add: editor_start_def create_interactive_graph_editor_def Let_def)

section \<open>What the listeners leave unchanged\<close>

lemma findIndex_None_iff: "findIndex P xs = None \<longleftrightarrow> (\<forall>x\<in>set xs. \<not> P x)"
  by (induction xs) auto

lemma findIndex_SomeD:
  "findIndex P xs = Some i \<Longrightarrow> i < length xs \<and> P (xs ! i) \<and> (\<forall>j<i. \<not> P (xs ! j))"
proof (induction xs arbitrary: i)
  case Nil
  then show ?case by simp
next
  case (Cons x xs)
  show ?case
  proof (cases "P x")
    case True
    with Cons.prems show ?thesis by simp
  next
    case False
    with Cons.prems obtain k where k: "findIndex P xs = Some k" "i = Suc k"
      by auto
    from Cons.IH [OF k(1)] False k(2) show ?thesis
      by (auto simp: nth_Cons split: nat.splits)
  qed
qed

lemma checkForWin_fields [simp]:
  "nodes (checkForWin s) = nodes s"
  "edges (checkForWin s) = edges s"
  "heap (checkForWin s) = heap s"
  "moveMode (checkForWin s) = moveMode s"
  "isDragging (checkForWin s) = isDragging s"
  "startDragNode (checkForWin s) = startDragNode s"
  by (simp_all add: checkForWin_def Let_def)


lemma mousedown_primary [simp]:
  "nodes (mousedown s x y 0) = nodes s"
  "edges (mousedown s x y 0) = edges s"
  "heap (mousedown s x y 0) = heap s"
  "moveMode (mousedown s x y 0) = moveMode s"
  "win_signals (mousedown s x y 0) = win_signals s"
  by (simp_all add: mousedown_def Let_def split: option.splits)

lemma mousemove_fields [simp]:
  "nodes (mousemove s x y) = nodes s"
  "edges (mousemove s x y) = edges s"
  "moveMode (mousemove s x y) = moveMode s"
  "win_signals (mousemove s x y) = win_signals s"
  by (simp_all add: mousemove_def Let_def split: option.splits)

lemma mousemove_ids [simp]: "node_id (heap (mousemove s x y) r) = node_id (heap s r)"
  by (simp add: mousemove_def Let_def split: option.splits)

lemma mousemove_connect_heap: "\<not> moveMode s \<Longrightarrow> heap (mousemove s x y) = heap s"
  by (simp add: mousemove_def Let_def split: option.splits)

section \<open>Releasing a connect-mode drag\<close>

lemma pair_in_edge_pairs:
  "(a, b) \<in> set (edge_pairs s) \<longleftrightarrow> (\<exists>e\<in>set (edges s). edge_from e = a \<and> edge_to e = b)"
  by (auto simp: edge_pairs_def)

lemma edge_overwrite [simp]:
  "(e::edge)\<lparr>edge_from := a, edge_to := b\<rparr> = \<lparr>edge_from = a, edge_to = b\<rparr>"
  by (cases e) simp

lemma connect_release_existing:
  assumes "(node_id (heap s v), node_id (heap s t)) \<in> set (edge_pairs s)"
  shows "connect_release s v t = s"
proof -
  have "findIndex (\<lambda>edge. edge_from edge = node_id (heap s v) \<and> edge_to edge = node_id (heap s t))
          (edges s) \<noteq> None"
    using assms by (simp add: findIndex_None_iff pair_in_edge_pairs)
  then show ?thesis
    by (auto simp: connect_release_def Let_def)
qed

lemma connect_release_reverse:
  assumes "(node_id (heap s v), node_id (heap s t)) \<notin> set (edge_pairs s)"
    and "(node_id (heap s t), node_id (heap s v)) \<in> set (edge_pairs s)"
  shows "\<exists>i<length (edge_pairs s).
           edge_pairs s ! i = (node_id (heap s t), node_id (heap s v))
         \<and> (\<forall>j<i. edge_pairs s ! j \<noteq> (node_id (heap s t), node_id (heap s v)))
         \<and> connect_release s v t =
             checkForWin (updateSeymourStatus
               (s\<lparr>edges := (edges s)[i := \<lparr>edge_from = node_id (heap s v),
                                           edge_to = node_id (heap s t)\<rparr>]\<rparr>))"
proof -
  let ?a = "node_id (heap s v)" and ?b = "node_id (heap s t)"
  have ex: "findIndex (\<lambda>edge. edge_from edge = ?a \<and> edge_to edge = ?b) (edges s) = None"
    using assms(1) by (simp add: findIndex_None_iff pair_in_edge_pairs)
  have "findIndex (\<lambda>edge. edge_from edge = ?b \<and> edge_to edge = ?a) (edges s) \<noteq> None"
    using assms(2) by (simp add: findIndex_None_iff pair_in_edge_pairs)
  then obtain i where i: "findIndex (\<lambda>edge. edge_from edge = ?b \<and> edge_to edge = ?a) (edges s) = Some i"
    by auto
  from findIndex_SomeD [OF i]
  have il: "i < length (edges s)"
    and at: "edge_from (edges s ! i) = ?b \<and> edge_to (edges s ! i) = ?a"
    and before: "\<forall>j<i. \<not> (edge_from (edges s ! j) = ?b \<and> edge_to (edges s ! j) = ?a)"
    by auto
  have cr: "connect_release s v t =
             checkForWin (updateSeymourStatus
               (s\<lparr>edges := (edges s)[i := \<lparr>edge_from = ?a, edge_to = ?b\<rparr>]\<rparr>))"
    by (simp add: connect_release_def Let_def ex i)
  have p1: "edge_pairs s ! i = (?b, ?a)"
    using il at by (simp add: edge_pairs_def)
  have p2: "\<forall>j<i. edge_pairs s ! j \<noteq> (?b, ?a)"
    using il before by (simp add: edge_pairs_def)
  have len: "i < length (edge_pairs s)"
    using il by (simp add: edge_pairs_def)
  from len p1 p2 cr show ?thesis by blast
qed

lemma connect_release_new:
  assumes "(node_id (heap s v), node_id (heap s t)) \<notin> set (edge_pairs s)"
    and "(node_id (heap s t), node_id (heap s v)) \<notin> set (edge_pairs s)"
  shows "connect_release s v t =
           checkForWin (updateSeymourStatus
             (s\<lparr>edges := edges s @ [\<lparr>edge_from = node_id (heap s v),
                                      edge_to = node_id (heap s t)\<rparr>]\<rparr>))"
proof -
  have ex: "findIndex (\<lambda>edge. edge_from edge = node_id (heap s v)
                              \<and> edge_to edge = node_id (heap s t)) (edges s) = None"
    using assms(1) by (simp add: findIndex_None_iff pair_in_edge_pairs)
  have rev: "findIndex (\<lambda>edge. edge_from edge = node_id (heap s t)
                               \<and> edge_to edge = node_id (heap s v)) (edges s) = None"
    using assms(2) by (simp add: findIndex_None_iff pair_in_edge_pairs)
  show ?thesis
    by (simp add: connect_release_def Let_def ex rev)
qed

lemma mouseup_connect:
  assumes "isDragging s" and "startDragNode s = Some v" and "\<not> moveMode s"
  shows "mouseup s x y =
           (case getNodeAt s x y of
              None \<Rightarrow> s
            | Some t \<Rightarrow> if t = v then s else connect_release s v t)
           \<lparr>isDragging := False, startDragNode := None, edgeMode := False,
            sourceNode := None, selectedNode := None\<rparr>"
  using assms by (auto simp: mouseup_def Let_def split: option.splits)

lemma node_ids_frame:
  "nodes s' = nodes s \<Longrightarrow> (\<And>r. node_id (heap s' r) = node_id (heap s r)) \<Longrightarrow>
   node_ids s' = node_ids s"
  by (simp add: node_ids_def)

lemma connect_release_ids: "node_ids (connect_release s v t) = node_ids s"
  by (rule node_ids_frame) (simp_all add: connect_release_def Let_def split: option.splits)

text \<open>
  Claim C2. A pointer-up ends a connect-mode drag that started on vertex \<open>v\<close>. If
  the release point hits a vertex \<open>t\<close> other than \<open>v\<close>: when the edge from \<open>v\<close> to
  \<open>t\<close> exists, the graph is unchanged; otherwise, when the reverse edge exists, the
  first such edge is rewritten in place to run from \<open>v\<close> to \<open>t\<close> and the number of
  edges stays the same; otherwise a new edge from \<open>v\<close> to \<open>t\<close> is appended. In all
  three cases the vertex ids stay as they are. If the release point hits no vertex
  (or \<open>v\<close> itself), the graph is unchanged. In the scenario, dragging vertex 2 onto
  vertex 0 with the edge (0,2) present gives (2,0) and still four edges.
\<close>

theorem connect_drop_outcome:
  assumes "isDragging s" and "startDragNode s = Some v" and "\<not> moveMode s"
  shows "(getNodeAt s x y = None \<or> getNodeAt s x y = Some v \<longrightarrow>
            nodes (mouseup s x y) = nodes s \<and> heap (mouseup s x y) = heap s
          \<and> edges (mouseup s x y) = edges s)
       \<and> (\<forall>t. getNodeAt s x y = Some t \<and> t \<noteq> v \<longrightarrow>
            node_ids (mouseup s x y) = node_ids s
          \<and> ((node_id (heap s v), node_id (heap s t)) \<in> set (edge_pairs s) \<longrightarrow>
               nodes (mouseup s x y) = nodes s \<and> heap (mouseup s x y) = heap s
             \<and> edges (mouseup s x y) = edges s)
          \<and> ((node_id (heap s v), node_id (heap s t)) \<notin> set (edge_pairs s)
               \<and> (node_id (heap s t), node_id (heap s v)) \<in> set (edge_pairs s) \<longrightarrow>
               length (edge_pairs (mouseup s x y)) = length (edge_pairs s)
             \<and> (\<exists>i<length (edge_pairs s).
                   edge_pairs s ! i = (node_id (heap s t), node_id (heap s v))
                 \<and> (\<forall>j<i. edge_pairs s ! j \<noteq> (node_id (heap s t), node_id (heap s v)))
                 \<and> edge_pairs (mouseup s x y) =
                     (edge_pairs s)[i := (node_id (heap s v), node_id (heap s t))]))
          \<and> ((node_id (heap s v), node_id (heap s t)) \<notin> set (edge_pairs s)
               \<and> (node_id (heap s t), node_id (heap s v)) \<notin> set (edge_pairs s) \<longrightarrow>
               edge_pairs (mouseup s x y) =
                 edge_pairs s @ [(node_id (heap s v), node_id (heap s t))]))"
proof -
  note up = mouseup_connect [OF assms, of x y]
  have none: "nodes (mouseup s x y) = nodes s \<and> heap (mouseup s x y) = heap s
          \<and> edges (mouseup s x y) = edges s"
    if "getNodeAt s x y = None \<or> getNodeAt s x y = Some v"
    using that up by auto
  have some: "node_ids (mouseup s x y) = node_ids s
          \<and> ((node_id (heap s v), node_id (heap s t)) \<in> set (edge_pairs s) \<longrightarrow>
               nodes (mouseup s x y) = nodes s \<and> heap (mouseup s x y) = heap s
             \<and> edges (mouseup s x y) = edges s)
          \<and> ((node_id (heap s v), node_id (heap s t)) \<notin> set (edge_pairs s)
               \<and> (node_id (heap s t), node_id (heap s v)) \<in> set (edge_pairs s) \<longrightarrow>
               length (edge_pairs (mouseup s x y)) = length (edge_pairs s)
             \<and> (\<exists>i<length (edge_pairs s).
                   edge_pairs s ! i = (node_id (heap s t), node_id (heap s v))
                 \<and> (\<forall>j<i. edge_pairs s ! j \<noteq> (node_id (heap s t), node_id (heap s v)))
                 \<and> edge_pairs (mouseup s x y) =
                     (edge_pairs s)[i := (node_id (heap s v), node_id (heap s t))]))
          \<and> ((node_id (heap s v), node_id (heap s t)) \<notin> set (edge_pairs s)
               \<and> (node_id (heap s t), node_id (heap s v)) \<notin> set (edge_pairs s) \<longrightarrow>
               edge_pairs (mouseup s x y) =
                 edge_pairs s @ [(node_id (heap s v), node_id (heap s t))])"
    if t: "getNodeAt s x y = Some t" "t \<noteq> v" for t
  proof -
    let ?r = "connect_release s v t"
    have m: "mouseup s x y = ?r\<lparr>isDragging := False, startDragNode := None, edgeMode := False,
            sourceNode := None, selectedNode := None\<rparr>"
      using up t by simp
    have ids: "node_ids (mouseup s x y) = node_ids s"
      unfolding m using connect_release_ids [of s v t] by (simp add: node_ids_def)
    have ep: "edge_pairs (mouseup s x y) = edge_pairs ?r"
      unfolding m by (simp add: edge_pairs_def)
    have c1: "nodes (mouseup s x y) = nodes s \<and> heap (mouseup s x y) = heap s
             \<and> edges (mouseup s x y) = edges s"
      if "(node_id (heap s v), node_id (heap s t)) \<in> set (edge_pairs s)"
      unfolding m using connect_release_existing [OF that] by simp
    have c2: "length (edge_pairs (mouseup s x y)) = length (edge_pairs s)
             \<and> (\<exists>i<length (edge_pairs s).
                   edge_pairs s ! i = (node_id (heap s t), node_id (heap s v))
                 \<and> (\<forall>j<i. edge_pairs s ! j \<noteq> (node_id (heap s t), node_id (heap s v)))
                 \<and> edge_pairs (mouseup s x y) =
                     (edge_pairs s)[i := (node_id (heap s v), node_id (heap s t))])"
      if "(node_id (heap s v), node_id (heap s t)) \<notin> set (edge_pairs s)"
        and "(node_id (heap s t), node_id (heap s v)) \<in> set (edge_pairs s)"
    proof -
      from connect_release_reverse [OF that] obtain i where
        i: "i < length (edge_pairs s)"
          "edge_pairs s ! i = (node_id (heap s t), node_id (heap s v))"
          "\<forall>j<i. edge_pairs s ! j \<noteq> (node_id (heap s t), node_id (heap s v))"
          "?r = checkForWin (updateSeymourStatus
               (s\<lparr>edges := (edges s)[i := \<lparr>edge_from = node_id (heap s v),
                                           edge_to = node_id (heap s t)\<rparr>]\<rparr>))"
        by blast
      have "edge_pairs ?r = (edge_pairs s)[i := (node_id (heap s v), node_id (heap s t))]"
        unfolding i(4) by (simp add: edge_pairs_def map_update)
      with i ep show ?thesis by auto
    qed
    have c3: "edge_pairs (mouseup s x y) =
                 edge_pairs s @ [(node_id (heap s v), node_id (heap s t))]"
      if "(node_id (heap s v), node_id (heap s t)) \<notin> set (edge_pairs s)"
        and "(node_id (heap s t), node_id (heap s v)) \<notin> set (edge_pairs s)"
      unfolding ep connect_release_new [OF that] by (simp add: edge_pairs_def)
    from ids c1 c2 c3 show ?thesis by blast
  qed
  from none some show ?thesis by blast
qed

lemma edge_pairs_frame: "edges s' = edges s \<Longrightarrow> edge_pairs s' = edge_pairs s"
  by (simp add: edge_pairs_def)

section \<open>The reversal scenario, evaluated\<close>

lemma upt4: "[0..<4] = [0, Suc 0, 2, 3]"
  by (simp add: upt_rec)

lemma reversal_start:
  "nodes (editor_start (create_interactive_graph_editor reversal_data)) = [0, Suc 0, 2, 3]"
  "edge_pairs (editor_start (create_interactive_graph_editor reversal_data))
     = [(0, 1), (1, 2), (0, 2), (1, 3)]"
  "moveMode (editor_start (create_interactive_graph_editor reversal_data)) = False"
  by (simp_all add: loaded_nodes loaded_rest edge_pairs_def loaded_edges reversal_data_def upt4)

lemma reversal_start_node:
  "node_id (heap (editor_start (create_interactive_graph_editor reversal_data)) 0) = 0"
  "node_id (heap (editor_start (create_interactive_graph_editor reversal_data)) (Suc 0)) = 1"
  "node_id (heap (editor_start (create_interactive_graph_editor reversal_data)) 2) = 2"
  "node_id (heap (editor_start (create_interactive_graph_editor reversal_data)) 3) = 3"
  "node_x (heap (editor_start (create_interactive_graph_editor reversal_data)) 0) = 50"
  "node_x (heap (editor_start (create_interactive_graph_editor reversal_data)) (Suc 0)) = 200"
  "node_x (heap (editor_start (create_interactive_graph_editor reversal_data)) 2) = 350"
  "node_x (heap (editor_start (create_interactive_graph_editor reversal_data)) 3) = 500"
  "node_y (heap (editor_start (create_interactive_graph_editor reversal_data)) 0) = 50"
  "node_y (heap (editor_start (create_interactive_graph_editor reversal_data)) (Suc 0)) = 50"
  "node_y (heap (editor_start (create_interactive_graph_editor reversal_data)) 2) = 50"
  "node_y (heap (editor_start (create_interactive_graph_editor reversal_data)) 3) = 50"
  by (simp_all add: loaded_node reversal_data_def)

lemma reversal_press:
  "getNodeAt ((editor_start (create_interactive_graph_editor reversal_data))
       \<lparr>lastMouseX := 350, lastMouseY := 50\<rparr>) 350 50 = Some 2"
  by (simp add: getNodeAt_squares reversal_start reversal_start_node)

lemma reversal_drag_state:
  "isDragging reversal_drag" "startDragNode reversal_drag = Some 2" "\<not> moveMode reversal_drag"
  "nodes reversal_drag = [0, Suc 0, 2, 3]"
  "heap reversal_drag = heap (editor_start (create_interactive_graph_editor reversal_data))"
  by (simp_all add: reversal_drag_def mousemove_def mousedown_def Let_def reversal_press
      sqrt_gt_threshold DRAG_THRESHOLD_def reversal_start)

lemma reversal_drag_pairs: "edge_pairs reversal_drag = [(0, 1), (1, 2), (0, 2), (1, 3)]"
  unfolding reversal_drag_def
  by (simp add: edge_pairs_frame [of "mousemove s x y" s for s x y]
      edge_pairs_frame [of "mousedown s x y 0" s for s x y] reversal_start)

lemma reversal_target: "getNodeAt reversal_drag 50 50 = Some 0"
  by (simp add: getNodeAt_squares reversal_drag_state reversal_start_node)

theorem connect_drop_outcome_witness:
  "isDragging reversal_drag \<and> startDragNode reversal_drag = Some 2 \<and> \<not> moveMode reversal_drag
   \<and> getNodeAt reversal_drag 50 50 = Some 0
   \<and> edge_pairs reversal_drag = [(0, 1), (1, 2), (0, 2), (1, 3)]
   \<and> edge_pairs (mouseup reversal_drag 50 50) = [(0, 1), (1, 2), (2, 0), (1, 3)]
   \<and> length (edge_pairs (mouseup reversal_drag 50 50)) = 4"
proof -
  note st = reversal_drag_state
  have ids: "node_id (heap reversal_drag 2) = 2" "node_id (heap reversal_drag 0) = 0"
    by (simp_all add: st reversal_start_node)
  have target: "getNodeAt reversal_drag 50 50 = Some 0 \<and> (0::nat) \<noteq> 2"
    by (simp add: reversal_target)
  have prem: "(node_id (heap reversal_drag 2), node_id (heap reversal_drag 0))
                \<notin> set (edge_pairs reversal_drag)
              \<and> (node_id (heap reversal_drag 0), node_id (heap reversal_drag 2))
                \<in> set (edge_pairs reversal_drag)"
    by (simp add: ids reversal_drag_pairs)
  from connect_drop_outcome [OF st(1) st(2) st(3), of 50 50] target prem
  obtain i where i: "i < length (edge_pairs reversal_drag)"
      "edge_pairs reversal_drag ! i
         = (node_id (heap reversal_drag 0), node_id (heap reversal_drag 2))"
      "edge_pairs (mouseup reversal_drag 50 50) =
         (edge_pairs reversal_drag)[i := (node_id (heap reversal_drag 2),
                                          node_id (heap reversal_drag 0))]"
    by blast
  from i(1) have "i < 4"
    by (simp add: reversal_drag_pairs)
  then consider "i = 0" | "i = 1" | "i = 2" | "i = 3"
    by linarith
  then have "i = 2"
    using i(2) by cases (simp_all add: ids reversal_drag_pairs)
  with i(3) have "edge_pairs (mouseup reversal_drag 50 50) = [(0, 1), (1, 2), (2, 0), (1, 3)]"
    by (simp add: ids reversal_drag_pairs)
  with st reversal_target reversal_drag_pairs show ?thesis by simp
qed

section \<open>Connect gestures keep the edge list simple\<close>

lemma connect_release_simple:
  assumes d: "no_duplicate_edges s" and c: "no_two_cycles s"
  shows "no_duplicate_edges (connect_release s v t) \<and> no_two_cycles (connect_release s v t)"
proof -
  let ?a = "node_id (heap s v)" and ?b = "node_id (heap s t)"
  let ?r = "connect_release s v t"
  from d have dist: "distinct (edge_pairs s)"
    by (simp add: no_duplicate_edges_def)
  from c have cyc: "\<And>p q. (p, q) \<in> set (edge_pairs s) \<Longrightarrow> p \<noteq> q \<Longrightarrow> (q, p) \<notin> set (edge_pairs s)"
    by (auto simp: no_two_cycles_def)
  consider (existing) "(?a, ?b) \<in> set (edge_pairs s)"
    | (reverse) "(?a, ?b) \<notin> set (edge_pairs s)" "(?b, ?a) \<in> set (edge_pairs s)"
    | (new) "(?a, ?b) \<notin> set (edge_pairs s)" "(?b, ?a) \<notin> set (edge_pairs s)"
    by blast
  then show ?thesis
  proof cases
    case existing
    then show ?thesis
      using d c by (simp add: connect_release_existing)
  next
    case reverse
    from connect_release_reverse [OF reverse] obtain i where
      i: "i < length (edge_pairs s)" "edge_pairs s ! i = (?b, ?a)"
        "?r = checkForWin (updateSeymourStatus
               (s\<lparr>edges := (edges s)[i := \<lparr>edge_from = ?a, edge_to = ?b\<rparr>]\<rparr>))"
      by blast
    have ep: "edge_pairs ?r = (edge_pairs s)[i := (?a, ?b)]"
      unfolding i(3) by (simp add: edge_pairs_def map_update)
    have dist': "distinct (edge_pairs ?r)"
      unfolding ep using dist reverse(1) by (intro distinct_list_update) auto
    have set': "set (edge_pairs ?r) = insert (?a, ?b) (set (edge_pairs s) - {(?b, ?a)})"
      unfolding ep using dist i(1,2) by (simp add: set_update_distinct)
    have "(q, p) \<notin> set (edge_pairs ?r)" if "(p, q) \<in> set (edge_pairs ?r)" "p \<noteq> q" for p q
      using that cyc unfolding set' by auto
    then have "no_two_cycles ?r"
      by (auto simp: no_two_cycles_def)
    with dist' show ?thesis
      by (simp add: no_duplicate_edges_def)
  next
    case new
    have ep: "edge_pairs ?r = edge_pairs s @ [(?a, ?b)]"
      unfolding connect_release_new [OF new] by (simp add: edge_pairs_def)
    have dist': "distinct (edge_pairs ?r)"
      unfolding ep using dist new(1) by simp
    have "(q, p) \<notin> set (edge_pairs ?r)" if "(p, q) \<in> set (edge_pairs ?r)" "p \<noteq> q" for p q
      using that cyc new unfolding ep by auto
    then have "no_two_cycles ?r"
      by (auto simp: no_two_cycles_def)
    with dist' show ?thesis
      by (simp add: no_duplicate_edges_def)
  qed
qed

lemma simple_frame:
  "edges s' = edges s \<Longrightarrow> no_duplicate_edges s' = no_duplicate_edges s"
  "edges s' = edges s \<Longrightarrow> no_two_cycles s' = no_two_cycles s"
  by (simp_all add: no_duplicate_edges_def no_two_cycles_def edge_pairs_def)

lemma mouseup_edges:
  "edges (mouseup s x y) = edges s
   \<or> (\<exists>v t. edges (mouseup s x y) = edges (connect_release s v t))"
  by (auto simp: mouseup_def Let_def)

lemma mouseup_simple:
  assumes "no_duplicate_edges s" and "no_two_cycles s"
  shows "no_duplicate_edges (mouseup s x y) \<and> no_two_cycles (mouseup s x y)"
proof -
  from mouseup_edges [of s x y] show ?thesis
  proof
    assume eq: "edges (mouseup s x y) = edges s"
    from assms simple_frame [OF eq] show ?thesis by blast
  next
    assume "\<exists>v t. edges (mouseup s x y) = edges (connect_release s v t)"
    then obtain v t where eq: "edges (mouseup s x y) = edges (connect_release s v t)"
      by blast
    from connect_release_simple [OF assms, of v t] simple_frame [OF eq] show ?thesis
      by blast
  qed
qed

lemma gesture_step_simple:
  assumes "gesture_event e" and "no_duplicate_edges s" and "no_two_cycles s"
  shows "\<exists>s'. handle s e = Some s' \<and> no_duplicate_edges s' \<and> no_two_cycles s'"
proof (cases e)
  case (MouseDown x y button)
  with assms(1) have b: "button = 0" by simp
  have eq: "edges (mousedown s x y 0) = edges s" by simp
  from assms(2,3) simple_frame [OF eq] show ?thesis
    unfolding MouseDown b by simp
next
  case (MouseMove x y)
  have eq: "edges (mousemove s x y) = edges s" by simp
  from assms(2,3) simple_frame [OF eq] show ?thesis
    unfolding MouseMove by simp
next
  case (MouseUp x y)
  from mouseup_simple [OF assms(2,3), of x y] show ?thesis
    unfolding MouseUp by simp
next
  case (DblClick x y)
  with assms(1) show ?thesis by simp
next
  case (ContextMenu x y)
  with assms(1) show ?thesis by simp
next
  case ToggleMoveMode
  with assms(1) show ?thesis by simp
next
  case (GraphDataUpdate ns es m)
  with assms(1) show ?thesis by simp
qed

text \<open>
  Claim C7. Take any editor state whose edge list has no two edges with the same
  ordered pair of endpoints and in which no two distinct vertices are joined in both
  directions. Every sequence of presses of the primary button, pointer moves and
  releases (so every sequence of connect-mode gestures) runs to a state whose edge
  list has the same two properties.
\<close>

theorem connect_gestures_keep_edges_simple:
  assumes "\<forall>e\<in>set evs. gesture_event e" and "no_duplicate_edges s" and "no_two_cycles s"
  shows "\<exists>s'. run s evs = Some s' \<and> no_duplicate_edges s' \<and> no_two_cycles s'"
  using assms
proof (induction evs arbitrary: s)
  case Nil
  then show ?case by simp
next
  case (Cons e evs)
  from Cons.prems have "gesture_event e" by simp
  from gesture_step_simple [OF this Cons.prems(2) Cons.prems(3)]
  obtain s1 where s1: "handle s e = Some s1" "no_duplicate_edges s1" "no_two_cycles s1"
    by blast
  from Cons.prems have "\<forall>e\<in>set evs. gesture_event e" by simp
  from Cons.IH [OF this s1(2) s1(3)] s1(1) show ?case by simp
qed

theorem connect_gestures_keep_edges_simple_witness:
  "gesture_event (MouseDown 350 50 0) \<and> gesture_event (MouseMove 200 50)
   \<and> gesture_event (MouseUp 50 50)
   \<and> no_duplicate_edges (editor_start (create_interactive_graph_editor reversal_data))
   \<and> no_two_cycles (editor_start (create_interactive_graph_editor reversal_data))
   \<and> (\<exists>s'. run (editor_start (create_interactive_graph_editor reversal_data))
               [MouseDown 350 50 0, MouseMove 200 50, MouseUp 50 50] = Some s'
          \<and> no_duplicate_edges s' \<and> no_two_cycles s')"
proof -
  let ?s = "editor_start (create_interactive_graph_editor reversal_data)"
  have ev: "\<forall>e\<in>set [MouseDown 350 50 0, MouseMove 200 50, MouseUp 50 50]. gesture_event e"
    by simp
  have d: "no_duplicate_edges ?s"
    by (simp add: no_duplicate_edges_def reversal_start)
  have c: "no_two_cycles ?s"
    by (simp add: no_two_cycles_def reversal_start)
  from connect_gestures_keep_edges_simple [OF ev d c] d c show ?thesis
    by simp
qed

section \<open>Runs of several events\<close>




lemma checkForWin_count [simp]: "seymourCount (checkForWin s) = seymourCount s"
  by (simp add: seymourCount_def)




section \<open>Two connect gestures on a dense graph\<close>









section \<open>When the solved prompt is scheduled\<close>














section \<open>The mode flag during a gesture\<close>

text \<open>
  The state after a press on node \<open>v\<close> and a move of more than the threshold, both
  in connect mode.
\<close>

lemma drag_start:
  assumes nm: "\<not> moveMode s"
    and src: "getNodeAt s x y = Some v"
    and far: "(x' - x)\<^sup>2 + (y' - y)\<^sup>2 > 100"
  shows "isDragging (mousemove (mousedown s x y 0) x' y')"
    and "startDragNode (mousemove (mousedown s x y 0) x' y') = Some v"
    and "heap (mousemove (mousedown s x y 0) x' y') = heap s"
proof -
  let ?p = "mousedown s x y 0"
  have "getNodeAt (s\<lparr>lastMouseX := x, lastMouseY := y\<rparr>) x y = Some v"
    using src by (simp add: getNodeAt_def)
  then have p: "startDragNode ?p = Some v" "\<not> isDragging ?p" "dragStartX ?p = x"
      "dragStartY ?p = y"
    by (simp_all add: mousedown_def Let_def)
  have pm: "\<not> moveMode ?p"
    using nm by simp
  show "isDragging (mousemove ?p x' y')" "startDragNode (mousemove ?p x' y') = Some v"
    using p pm far by (simp_all add: mousemove_def Let_def sqrt_gt_threshold)
  show "heap (mousemove ?p x' y') = heap s"
    using pm by (simp add: mousemove_connect_heap)
qed

lemma mouseup_move_mode:
  assumes "isDragging s" and "startDragNode s \<noteq> None" and "moveMode s"
  shows "nodes (mouseup s x y) = nodes s" and "edges (mouseup s x y) = edges s"
    and "heap (mouseup s x y) = heap s"
  using assms by (simp_all add: mouseup_def Let_def)

lemma mousemove_move_mode:
  assumes "moveMode s" and "isDragging s" and "startDragNode s = Some v"
  shows "node_x (heap (mousemove s x y) v) = x" and "node_y (heap (mousemove s x y) v) = y"
  using assms by (simp_all add: mousemove_def Let_def)

subsection \<open>The variables written at the start of a drag are never read\<close>

lemma getNodeAt_updates:
  "getNodeAt (edgeMode_update f s) x y = getNodeAt s x y"
  "getNodeAt (sourceNode_update g s) x y = getNodeAt s x y"
  "getNodeAt (lastMouseX_update h s) x y = getNodeAt s x y"
  "getNodeAt (lastMouseY_update h s) x y = getNodeAt s x y"
  by (simp_all add: getNodeAt_def)

lemma edge_near_updates:
  "edge_near (edgeMode_update f s) x y = edge_near s x y"
  "edge_near (sourceNode_update g s) x y = edge_near s x y"
  "edge_near (lastMouseX_update h s) x y = edge_near s x y"
  "edge_near (lastMouseY_update h s) x y = edge_near s x y"
  by (rule ext, simp add: edge_near_def find_node_def Let_def cong: option.case_cong)+

lemma getEdgeAt_updates:
  "getEdgeAt (edgeMode_update f s) x y = getEdgeAt s x y"
  "getEdgeAt (sourceNode_update g s) x y = getEdgeAt s x y"
  "getEdgeAt (lastMouseX_update h s) x y = getEdgeAt s x y"
  "getEdgeAt (lastMouseY_update h s) x y = getEdgeAt s x y"
  by (simp_all add: getEdgeAt_def edge_near_updates)

lemma latch_mousedown:
  "without_latch (mousedown (without_latch s) x y button) = without_latch (mousedown s x y button)"
  by (simp add: mousedown_def without_latch_def Let_def updateSeymourStatus_def
      getNodeAt_updates getEdgeAt_updates split: option.splits)

lemma latch_mousemove:
  "without_latch (mousemove (without_latch s) x y) = without_latch (mousemove s x y)"
  by (simp add: mousemove_def without_latch_def Let_def split: option.splits)

lemma latch_connect_release:
  "without_latch (connect_release (s\<lparr>edgeMode := a, sourceNode := b\<rparr>) v t)
     = without_latch (connect_release s v t)"
  by (simp add: connect_release_def without_latch_def Let_def updateSeymourStatus_def
      checkForWin_def split: option.splits)

lemma without_latch_reset:
  "without_latch (s\<lparr>isDragging := False, startDragNode := None, edgeMode := False,
            sourceNode := None, selectedNode := None\<rparr>)
     = (without_latch s)\<lparr>isDragging := False, startDragNode := None, selectedNode := None\<rparr>"
  by (simp add: without_latch_def)

lemma latch_mouseup:
  "without_latch (mouseup (without_latch s) x y) = without_latch (mouseup s x y)"
proof -
  have "without_latch (connect_release (without_latch s) v t)
          = without_latch (connect_release s v t)" for v t
    unfolding without_latch_def [of s] by (rule latch_connect_release)
  moreover have "getNodeAt (without_latch s) x y = getNodeAt s x y"
      "isDragging (without_latch s) = isDragging s"
      "startDragNode (without_latch s) = startDragNode s"
      "moveMode (without_latch s) = moveMode s"
    by (simp_all add: without_latch_def getNodeAt_updates)
  moreover have "without_latch (without_latch s) = without_latch s"
    by (simp add: without_latch_def)
  ultimately show ?thesis
    by (auto simp add: mouseup_def Let_def without_latch_reset)
qed

lemma latch_dblclick:
  "without_latch (dblclick (without_latch s) x y) = without_latch (dblclick s x y)"
  by (simp add: dblclick_def without_latch_def Let_def node_ids_def updateSeymourStatus_def
      getNodeAt_updates split: option.splits)

lemma latch_renumberNodes:
  "renumberNodes (s\<lparr>edgeMode := a, sourceNode := b, edges := es, nodes := ns\<rparr>)
     = map_option (\<lambda>r. r\<lparr>edgeMode := a, sourceNode := b\<rparr>)
         (renumberNodes (s\<lparr>edges := es, nodes := ns\<rparr>))"
  by (simp add: renumberNodes_def Let_def split: option.splits)

lemma latch_contextmenu:
  "map_option without_latch (contextmenu (without_latch s) x y)
     = map_option without_latch (contextmenu s x y)"
  by (auto simp add: contextmenu_def without_latch_def Let_def latch_renumberNodes
      updateSeymourStatus_def checkForWin_def getNodeAt_updates getEdgeAt_updates
      split: option.splits)

lemma latch_graphDataUpdate:
  "without_latch (graphDataUpdate (without_latch s) ns es m)
     = without_latch (graphDataUpdate s ns es m)"
  by (simp add: graphDataUpdate_def without_latch_def updateSeymourStatus_def
      split: option.splits)

lemma latch_handle:
  "map_option without_latch (handle (without_latch s) e) = map_option without_latch (handle s e)"
proof (cases e)
  case (MouseDown x y button)
  then show ?thesis by (simp add: latch_mousedown)
next
  case (MouseMove x y)
  then show ?thesis by (simp add: latch_mousemove)
next
  case (MouseUp x y)
  then show ?thesis by (simp add: latch_mouseup)
next
  case (DblClick x y)
  then show ?thesis by (simp add: latch_dblclick)
next
  case (ContextMenu x y)
  then show ?thesis by (simp add: latch_contextmenu)
next
  case ToggleMoveMode
  then show ?thesis by (simp add: toggleMoveMode_def without_latch_def)
next
  case (GraphDataUpdate ns es m)
  then show ?thesis by (simp add: latch_graphDataUpdate)
qed

lemma latch_run:
  assumes "without_latch s = without_latch t"
  shows "map_option without_latch (run s evs) = map_option without_latch (run t evs)"
  using assms
proof (induction evs arbitrary: s t)
  case Nil
  then show ?case by simp
next
  case (Cons e evs)
  have step: "map_option without_latch (handle s e) = map_option without_latch (handle t e)"
    using latch_handle [of s e] latch_handle [of t e] Cons.prems by simp
  show ?case
  proof (cases "handle s e")
    case None
    with step have "handle t e = None" by simp
    with None show ?thesis by simp
  next
    case (Some s')
    with step obtain t' where t': "handle t e = Some t'" "without_latch s' = without_latch t'"
      by (cases "handle t e") auto
    from Cons.IH [OF t'(2)] Some t'(1) show ?thesis by simp
  qed
qed


text \<open>
  Claim C8, amended. The mode is not latched: every pointer event reads the mode
  flag as it is when the event arrives. The two variables written when a drag
  starts, \<^verbatim>\<open>edgeMode\<close> and \<^verbatim>\<open>sourceNode\<close>, are never read: the same events run from
  two states that differ only in them end in states that differ only in them. A
  release of a drag while the flag says move mode changes no vertex, edge or
  position; a pointer move while the flag says connect mode changes no position;
  and a pointer move of a started drag while the flag says move mode puts the
  dragged vertex at the pointer.
\<close>

theorem mode_read_at_each_event:
  "map_option without_latch (run (without_latch s) evs) = map_option without_latch (run s evs)
   \<and> (isDragging s \<and> startDragNode s \<noteq> None \<and> moveMode s \<longrightarrow>
         nodes (mouseup s x y) = nodes s \<and> edges (mouseup s x y) = edges s
       \<and> heap (mouseup s x y) = heap s)
   \<and> (\<not> moveMode s \<longrightarrow> heap (mousemove s x y) = heap s)
   \<and> (\<forall>v. moveMode s \<and> isDragging s \<and> startDragNode s = Some v \<longrightarrow>
         node_x (heap (mousemove s x y) v) = x \<and> node_y (heap (mousemove s x y) v) = y)"
proof -
  have "without_latch (without_latch s) = without_latch s"
    by (simp add: without_latch_def)
  from latch_run [OF this]
  have a: "map_option without_latch (run (without_latch s) evs)
             = map_option without_latch (run s evs)" .
  have b: "isDragging s \<and> startDragNode s \<noteq> None \<and> moveMode s \<longrightarrow>
         nodes (mouseup s x y) = nodes s \<and> edges (mouseup s x y) = edges s
       \<and> heap (mouseup s x y) = heap s"
    by (simp add: mouseup_move_mode)
  have c: "\<not> moveMode s \<longrightarrow> heap (mousemove s x y) = heap s"
    by (simp add: mousemove_connect_heap)
  have d: "\<forall>v. moveMode s \<and> isDragging s \<and> startDragNode s = Some v \<longrightarrow>
         node_x (heap (mousemove s x y) v) = x \<and> node_y (heap (mousemove s x y) v) = y"
    by (simp add: mousemove_move_mode)
  from a b c d show ?thesis
    by blast
qed

subsection \<open>A connect gesture on the example, with and without a toggle\<close>

lemma example_press: "getNodeAt example_editor 50 50 = Some 0"
  by (simp add: getNodeAt_squares example_editor_nodes example_editor_heap)

lemma example_drag:
  "isDragging (mousemove (mousedown example_editor 50 50 0) 350 50)"
  "startDragNode (mousemove (mousedown example_editor 50 50 0) 350 50) = Some 0"
  "heap (mousemove (mousedown example_editor 50 50 0) 350 50) = heap example_editor"
  "\<not> moveMode (mousemove (mousedown example_editor 50 50 0) 350 50)"
  "nodes (mousemove (mousedown example_editor 50 50 0) 350 50) = [0, 1, 2, 3]"
  "edge_pairs (mousemove (mousedown example_editor 50 50 0) 350 50)
     = [(0, 1), (1, 2), (2, 0), (1, 3)]"
proof -
  have nm: "\<not> moveMode example_editor"
    by (simp add: example_editor_rest)
  have far: "(350 - 50)\<^sup>2 + (50 - 50)\<^sup>2 > (100::real)"
    by simp
  from drag_start [OF nm example_press far]
  show "isDragging (mousemove (mousedown example_editor 50 50 0) 350 50)"
    "startDragNode (mousemove (mousedown example_editor 50 50 0) 350 50) = Some 0"
    "heap (mousemove (mousedown example_editor 50 50 0) 350 50) = heap example_editor"
    by blast+
  show "\<not> moveMode (mousemove (mousedown example_editor 50 50 0) 350 50)"
    using nm by simp
  show "nodes (mousemove (mousedown example_editor 50 50 0) 350 50) = [0, 1, 2, 3]"
    by (simp add: example_editor_nodes)
  show "edge_pairs (mousemove (mousedown example_editor 50 50 0) 350 50)
     = [(0, 1), (1, 2), (2, 0), (1, 3)]"
    by (simp add: edge_pairs_def example_editor_edges)
qed

lemma example_toggled:
  "isDragging (toggleMoveMode (mousemove (mousedown example_editor 50 50 0) 350 50))"
  "startDragNode (toggleMoveMode (mousemove (mousedown example_editor 50 50 0) 350 50)) = Some 0"
  "heap (toggleMoveMode (mousemove (mousedown example_editor 50 50 0) 350 50))
     = heap example_editor"
  "moveMode (toggleMoveMode (mousemove (mousedown example_editor 50 50 0) 350 50))"
  "nodes (toggleMoveMode (mousemove (mousedown example_editor 50 50 0) 350 50)) = [0, 1, 2, 3]"
  "edge_pairs (toggleMoveMode (mousemove (mousedown example_editor 50 50 0) 350 50))
     = [(0, 1), (1, 2), (2, 0), (1, 3)]"
  using example_drag by (simp_all add: toggleMoveMode_def edge_pairs_def)

theorem mode_read_at_each_event_witness:
  "isDragging (toggleMoveMode (mousemove (mousedown example_editor 50 50 0) 350 50))
   \<and> startDragNode (toggleMoveMode (mousemove (mousedown example_editor 50 50 0) 350 50))
       = Some 0
   \<and> moveMode (toggleMoveMode (mousemove (mousedown example_editor 50 50 0) 350 50))
   \<and> edge_pairs (mouseup (toggleMoveMode (mousemove (mousedown example_editor 50 50 0) 350 50))
        350 50) = [(0, 1), (1, 2), (2, 0), (1, 3)]
   \<and> node_x (heap (mousemove (toggleMoveMode
        (mousemove (mousedown example_editor 50 50 0) 350 50)) 350 200) 0) = 350
   \<and> node_y (heap (mousemove (toggleMoveMode
        (mousemove (mousedown example_editor 50 50 0) 350 50)) 350 200) 0) = 200
   \<and> \<not> moveMode (mousemove (mousedown example_editor 50 50 0) 350 50)
   \<and> heap (mousemove (mousemove (mousedown example_editor 50 50 0) 350 50) 350 200)
       = heap example_editor"
proof -
  let ?d = "mousemove (mousedown example_editor 50 50 0) 350 50"
  let ?t = "toggleMoveMode ?d"
  note d = example_drag and t = example_toggled
  from mode_read_at_each_event [of ?t "[]" 350 50] t(1,2,4)
  have "edges (mouseup ?t 350 50) = edges ?t"
    by simp
  then have up: "edge_pairs (mouseup ?t 350 50) = [(0, 1), (1, 2), (2, 0), (1, 3)]"
    using t(6) by (simp add: edge_pairs_def)
  from mode_read_at_each_event [of ?t "[]" 350 200] t(1,2,4)
  have mv: "node_x (heap (mousemove ?t 350 200) 0) = 350
          \<and> node_y (heap (mousemove ?t 350 200) 0) = 200"
    by simp
  from mode_read_at_each_event [of ?d "[]" 350 200] d(4)
  have "heap (mousemove ?d 350 200) = heap ?d"
    by simp
  then have cn: "heap (mousemove ?d 350 200) = heap example_editor"
    using d(3) by simp
  from t(1,2,4) d(4) up mv cn show ?thesis
    by simp
qed

lemma mousemove_drag:
  assumes "isDragging s"
  shows "isDragging (mousemove s x y)" and "startDragNode (mousemove s x y) = startDragNode s"
  using assms by (simp_all add: mousemove_def Let_def split: option.splits)

lemma mousemove_move_heap:
  assumes "moveMode s" and "isDragging s" and "startDragNode s = Some v"
  shows "heap (mousemove s x y) = (heap s)(v := (heap s v)\<lparr>node_x := x, node_y := y\<rparr>)"
  using assms by (simp add: mousemove_def Let_def)

lemma example_positions:
  "node_positions example_editor = [(50, 50), (200, 50), (350, 50), (500, 50)]"
  by (simp add: node_positions_def example_editor_nodes example_editor_heap)

lemma example_drag_next_ref:
  "next_ref (mousemove (mousedown example_editor 50 50 0) 350 50) = 4"
  by (simp add: mousemove_def mousedown_def Let_def example_press getNodeAt_updates
      example_editor_def editor_start_def example_json split: option.splits)

lemma upt_4_8: "[4..<8] = [4, 5, 6, 7]"
  by (simp add: upt_rec)

text \<open>
  The state after the page has received the example graph again in a
  \<^verbatim>\<open>graphDataUpdate\<close> event during the drag, with the mode \<open>m\<close>.
\<close>

lemma example_updated:
  "isDragging (graphDataUpdate (mousemove (mousedown example_editor 50 50 0) 350 50)
      (gj_nodes (create_interactive_graph_editor example_data))
      (gj_edges (create_interactive_graph_editor example_data)) (Some m))"
  "startDragNode (graphDataUpdate (mousemove (mousedown example_editor 50 50 0) 350 50)
      (gj_nodes (create_interactive_graph_editor example_data))
      (gj_edges (create_interactive_graph_editor example_data)) (Some m)) = Some 0"
  "moveMode (graphDataUpdate (mousemove (mousedown example_editor 50 50 0) 350 50)
      (gj_nodes (create_interactive_graph_editor example_data))
      (gj_edges (create_interactive_graph_editor example_data)) (Some m)) = m"
  "nodes (graphDataUpdate (mousemove (mousedown example_editor 50 50 0) 350 50)
      (gj_nodes (create_interactive_graph_editor example_data))
      (gj_edges (create_interactive_graph_editor example_data)) (Some m)) = [4, 5, 6, 7]"
  "edges (graphDataUpdate (mousemove (mousedown example_editor 50 50 0) 350 50)
      (gj_nodes (create_interactive_graph_editor example_data))
      (gj_edges (create_interactive_graph_editor example_data)) (Some m))
     = [\<lparr>edge_from = 0, edge_to = 1\<rparr>, \<lparr>edge_from = 1, edge_to = 2\<rparr>,
        \<lparr>edge_from = 2, edge_to = 0\<rparr>, \<lparr>edge_from = 1, edge_to = 3\<rparr>]"
  using example_drag(1,2)
  by (simp_all add: graphDataUpdate_def example_drag_next_ref example_json upt_4_8)

lemma example_updated_heap:
  "node_id (heap (graphDataUpdate (mousemove (mousedown example_editor 50 50 0) 350 50)
      (gj_nodes (create_interactive_graph_editor example_data))
      (gj_edges (create_interactive_graph_editor example_data)) (Some m)) 0) = 0"
  "node_id (heap (graphDataUpdate (mousemove (mousedown example_editor 50 50 0) 350 50)
      (gj_nodes (create_interactive_graph_editor example_data))
      (gj_edges (create_interactive_graph_editor example_data)) (Some m)) 6) = 2"
  "node_x (heap (graphDataUpdate (mousemove (mousedown example_editor 50 50 0) 350 50)
      (gj_nodes (create_interactive_graph_editor example_data))
      (gj_edges (create_interactive_graph_editor example_data)) (Some m)) 4) = 50"
  "node_x (heap (graphDataUpdate (mousemove (mousedown example_editor 50 50 0) 350 50)
      (gj_nodes (create_interactive_graph_editor example_data))
      (gj_edges (create_interactive_graph_editor example_data)) (Some m)) 5) = 200"
  "node_x (heap (graphDataUpdate (mousemove (mousedown example_editor 50 50 0) 350 50)
      (gj_nodes (create_interactive_graph_editor example_data))
      (gj_edges (create_interactive_graph_editor example_data)) (Some m)) 6) = 350"
  "node_y (heap (graphDataUpdate (mousemove (mousedown example_editor 50 50 0) 350 50)
      (gj_nodes (create_interactive_graph_editor example_data))
      (gj_edges (create_interactive_graph_editor example_data)) (Some m)) 4) = 50"
  "node_y (heap (graphDataUpdate (mousemove (mousedown example_editor 50 50 0) 350 50)
      (gj_nodes (create_interactive_graph_editor example_data))
      (gj_edges (create_interactive_graph_editor example_data)) (Some m)) 5) = 50"
  "node_y (heap (graphDataUpdate (mousemove (mousedown example_editor 50 50 0) 350 50)
      (gj_nodes (create_interactive_graph_editor example_data))
      (gj_edges (create_interactive_graph_editor example_data)) (Some m)) 6) = 50"
  by (simp_all add: graphDataUpdate_def example_drag_next_ref example_json place_nodes_def
      example_drag(3) example_editor_heap)

text \<open>
  Claim C8 says that a toggle between the start of a drag and the pointer-up leaves
  the outcome of the gesture as it is without the toggle. On the example in connect
  mode, the drag from vertex 0 to vertex 2 reverses the edge (2,0); with a toggle
  before the release the edge list stays as it was. The same holds when the mode
  arrives in a \<^verbatim>\<open>graphDataUpdate\<close> event that carries the example graph again: with
  connect mode in the event the edge is reversed, with move mode it is not. And with
  a toggle before a further pointer move, vertex 0 follows the pointer to (350,200),
  where without the toggle no vertex moves.
\<close>

theorem mode_toggle_changes_outcome:
  "map_option edge_pairs
     (run example_editor [MouseDown 50 50 0, MouseMove 350 50, MouseUp 350 50])
     = Some [(0, 1), (1, 2), (0, 2), (1, 3)]
   \<and> map_option edge_pairs
     (run example_editor [MouseDown 50 50 0, MouseMove 350 50, ToggleMoveMode, MouseUp 350 50])
     = Some [(0, 1), (1, 2), (2, 0), (1, 3)]
   \<and> map_option edge_pairs
     (run example_editor [MouseDown 50 50 0, MouseMove 350 50,
        GraphDataUpdate (gj_nodes (create_interactive_graph_editor example_data))
          (gj_edges (create_interactive_graph_editor example_data)) (Some False),
        MouseUp 350 50])
     = Some [(0, 1), (1, 2), (0, 2), (1, 3)]
   \<and> map_option edge_pairs
     (run example_editor [MouseDown 50 50 0, MouseMove 350 50,
        GraphDataUpdate (gj_nodes (create_interactive_graph_editor example_data))
          (gj_edges (create_interactive_graph_editor example_data)) (Some True),
        MouseUp 350 50])
     = Some [(0, 1), (1, 2), (2, 0), (1, 3)]
   \<and> map_option node_positions
     (run example_editor [MouseDown 50 50 0, MouseMove 350 50, MouseMove 350 200,
                          MouseUp 350 200])
     = Some [(50, 50), (200, 50), (350, 50), (500, 50)]
   \<and> map_option node_positions
     (run example_editor [MouseDown 50 50 0, MouseMove 350 50, ToggleMoveMode,
                          MouseMove 350 200, MouseUp 350 200])
     = Some [(350, 200), (200, 50), (350, 50), (500, 50)]"
proof -
  let ?d = "mousemove (mousedown example_editor 50 50 0) 350 50"
  let ?t = "toggleMoveMode ?d"
  note d = example_drag and t = example_toggled
  have tgt: "getNodeAt ?d 350 50 = Some 2"
    by (simp add: getNodeAt_squares d(3) example_editor_nodes example_editor_heap)
  have es: "edges ?d = edges example_editor"
    by simp
  from mouseup_connect [OF d(1) d(2) d(4), of 350 50] tgt
  have "mouseup ?d 350 50 = (connect_release ?d 0 2)\<lparr>isDragging := False,
          startDragNode := None, edgeMode := False, sourceNode := None, selectedNode := None\<rparr>"
    by simp
  then have "edge_pairs (mouseup ?d 350 50) = edge_pairs (connect_release ?d 0 2)"
    by (simp add: edge_pairs_def)
  also have "\<dots> = [(0, 1), (1, 2), (0, 2), (1, 3)]"
    by (simp add: connect_release_def Let_def d(3) es example_editor_heap
        example_editor_edges edge_pairs_def)
  finally have one: "map_option edge_pairs
     (run example_editor [MouseDown 50 50 0, MouseMove 350 50, MouseUp 350 50])
     = Some [(0, 1), (1, 2), (0, 2), (1, 3)]"
    by simp
  have "edges (mouseup ?t 350 50) = edges ?t"
    using t(1,2,4) by (simp add: mouseup_move_mode)
  then have "edge_pairs (mouseup ?t 350 50) = [(0, 1), (1, 2), (2, 0), (1, 3)]"
    using t(6) by (simp add: edge_pairs_def)
  then have two: "map_option edge_pairs
     (run example_editor [MouseDown 50 50 0, MouseMove 350 50, ToggleMoveMode, MouseUp 350 50])
     = Some [(0, 1), (1, 2), (2, 0), (1, 3)]"
    by simp
  let ?m = "mousemove ?d 350 200"
  have m: "isDragging ?m" "startDragNode ?m = Some 0" "\<not> moveMode ?m"
      "heap ?m = heap example_editor" "nodes ?m = [0, 1, 2, 3]"
    using mousemove_drag [OF d(1), of 350 200] d(2,3,4)
    by (simp_all add: mousemove_connect_heap example_editor_nodes)
  have none: "getNodeAt ?m 350 200 = None"
    by (simp add: getNodeAt_squares m(4) example_editor_nodes example_editor_heap)
  from mouseup_connect [OF m(1) m(2) m(3), of 350 200] none
  have "mouseup ?m 350 200 = ?m\<lparr>isDragging := False,
          startDragNode := None, edgeMode := False, sourceNode := None, selectedNode := None\<rparr>"
    by simp
  then have "node_positions (mouseup ?m 350 200) = node_positions example_editor"
    using m(4,5) by (simp add: node_positions_def example_editor_nodes)
  then have three: "map_option node_positions
     (run example_editor [MouseDown 50 50 0, MouseMove 350 50, MouseMove 350 200,
                          MouseUp 350 200])
     = Some [(50, 50), (200, 50), (350, 50), (500, 50)]"
    by (simp add: example_positions)
  let ?n = "mousemove ?t 350 200"
  have n: "isDragging ?n" "startDragNode ?n = Some 0" "moveMode ?n" "nodes ?n = [0, 1, 2, 3]"
    using mousemove_drag [OF t(1), of 350 200] t(2,4)
    by (simp_all add: toggleMoveMode_def example_editor_nodes)
  have nh: "heap ?n = (heap example_editor)(0 := (heap example_editor 0)\<lparr>node_x := 350,
                node_y := 200\<rparr>)"
    using mousemove_move_heap [OF t(4) t(1) t(2), of 350 200] t(3) by simp
  have "nodes (mouseup ?n 350 200) = nodes ?n \<and> heap (mouseup ?n 350 200) = heap ?n"
    using n by (simp add: mouseup_move_mode)
  then have "node_positions (mouseup ?n 350 200)
      = [(350, 200), (200, 50), (350, 50), (500, 50)]"
    by (simp add: node_positions_def t(5) nh example_editor_heap)
  then have four: "map_option node_positions
     (run example_editor [MouseDown 50 50 0, MouseMove 350 50, ToggleMoveMode,
                          MouseMove 350 200, MouseUp 350 200])
     = Some [(350, 200), (200, 50), (350, 50), (500, 50)]"
    by simp
  let ?c = "graphDataUpdate ?d (gj_nodes (create_interactive_graph_editor example_data))
      (gj_edges (create_interactive_graph_editor example_data)) (Some False)"
  let ?v = "graphDataUpdate ?d (gj_nodes (create_interactive_graph_editor example_data))
      (gj_edges (create_interactive_graph_editor example_data)) (Some True)"
  note c = example_updated [of False] and ch = example_updated_heap [of False]
  note v = example_updated [of True]
  have ctgt: "getNodeAt ?c 350 50 = Some 6"
    by (simp add: getNodeAt_squares c(4) ch)
  from mouseup_connect [OF c(1) c(2), of 350 50] c(3) ctgt
  have "mouseup ?c 350 50 = (connect_release ?c 0 6)\<lparr>isDragging := False,
          startDragNode := None, edgeMode := False, sourceNode := None, selectedNode := None\<rparr>"
    by simp
  then have "edge_pairs (mouseup ?c 350 50) = edge_pairs (connect_release ?c 0 6)"
    by (simp add: edge_pairs_def)
  also have "\<dots> = [(0, 1), (1, 2), (0, 2), (1, 3)]"
    by (simp add: connect_release_def Let_def c(5) ch edge_pairs_def)
  finally have five: "map_option edge_pairs
     (run example_editor [MouseDown 50 50 0, MouseMove 350 50,
        GraphDataUpdate (gj_nodes (create_interactive_graph_editor example_data))
          (gj_edges (create_interactive_graph_editor example_data)) (Some False),
        MouseUp 350 50])
     = Some [(0, 1), (1, 2), (0, 2), (1, 3)]"
    by simp
  have "edges (mouseup ?v 350 50) = edges ?v"
    using v(1,2,3) by (simp add: mouseup_move_mode)
  then have "edge_pairs (mouseup ?v 350 50) = [(0, 1), (1, 2), (2, 0), (1, 3)]"
    using v(5) by (simp add: edge_pairs_def)
  then have six: "map_option edge_pairs
     (run example_editor [MouseDown 50 50 0, MouseMove 350 50,
        GraphDataUpdate (gj_nodes (create_interactive_graph_editor example_data))
          (gj_edges (create_interactive_graph_editor example_data)) (Some True),
        MouseUp 350 50])
     = Some [(0, 1), (1, 2), (2, 0), (1, 3)]"
    by simp
  from one two three four five six show ?thesis
    by blast
qed

end
